theory Spec2Isabelle
  imports Main "HOL-Library.Word"
begin

section \<open>JavaScript strings\<close>

text \<open>
  A JavaScript string is a sequence of UTF-16 code units. \<open>js\<close> writes an ASCII
  literal as such a sequence.
\<close>

type_synonym jschar = "16 word"
type_synonym jsstring = "jschar list"

definition js :: "string \<Rightarrow> jsstring" where
  "js s = map of_char s"

definition dquote :: jschar where
  "dquote = 0x22"

definition squote :: jschar where
  "squote = 0x27"

definition space :: jschar where
  "space = 0x20"

definition newline :: jschar where
  "newline = 0x0A"

definition backtick :: jschar where
  "backtick = 0x60"

text \<open>
  The code units that \<open>String.prototype.trim\<close> removes and that \<open>\s\<close> matches in a
  regular expression: ECMAScript's WhiteSpace and LineTerminator.
\<close>

definition isWhiteSpace :: "jschar \<Rightarrow> bool" where
  "isWhiteSpace c \<longleftrightarrow>
     c = 0x0009 \<or> c = 0x000A \<or> c = 0x000B \<or> c = 0x000C \<or> c = 0x000D \<or> c = 0x0020 \<or>
     c = 0x00A0 \<or> c = 0x1680 \<or> (0x2000 \<le> c \<and> c \<le> 0x200A) \<or> c = 0x2028 \<or>
     c = 0x2029 \<or> c = 0x202F \<or> c = 0x205F \<or> c = 0x3000 \<or> c = 0xFEFF"

definition isLineTerminator :: "jschar \<Rightarrow> bool" where
  "isLineTerminator c \<longleftrightarrow> c = 0x000A \<or> c = 0x000D \<or> c = 0x2028 \<or> c = 0x2029"

definition trim :: "jsstring \<Rightarrow> jsstring" where
  "trim s = rev (dropWhile isWhiteSpace (rev (dropWhile isWhiteSpace s)))"

section \<open>Executor.parseCommand\<close>

text \<open>
  The loop state of \<open>parseCommand\<close>: the four local variables. \<open>quoteChar\<close> is the
  empty string or the one-character string of the open quote.
\<close>

record parse_state =
  args :: "jsstring list"
  current :: jsstring
  inQuotes :: bool
  quoteChar :: jsstring

definition parseInit :: parse_state where
  "parseInit = \<lparr>args = [], current = [], inQuotes = False, quoteChar = []\<rparr>"

text \<open>One iteration of the \<open>for\<close> loop, on the character \<open>command[i]\<close>.\<close>

definition parseStep :: "parse_state \<Rightarrow> jschar \<Rightarrow> parse_state" where
  "parseStep st char =
     (if (char = dquote \<or> char = squote) \<and> \<not> inQuotes st then
        st\<lparr>inQuotes := True, quoteChar := [char]\<rparr>
      else if [char] = quoteChar st \<and> inQuotes st then
        st\<lparr>inQuotes := False, quoteChar := []\<rparr>
      else if char = space \<and> \<not> inQuotes st then
        (if trim (current st) \<noteq> [] then
           st\<lparr>args := args st @ [trim (current st)], current := []\<rparr>
         else st)
      else
        st\<lparr>current := current st @ [char]\<rparr>)"

definition parseLoop :: "jsstring \<Rightarrow> parse_state" where
  "parseLoop command = foldl parseStep parseInit command"

text \<open>After the loop: the last argument is pushed when it is not blank.\<close>

definition parseFinish :: "parse_state \<Rightarrow> jsstring list" where
  "parseFinish st =
     (if trim (current st) \<noteq> [] then args st @ [trim (current st)] else args st)"

definition parseCommand :: "jsstring \<Rightarrow> jsstring list" where
  "parseCommand command = parseFinish (parseLoop command)"

subsection \<open>The tokenizer in the words of the specification\<close>

text \<open>
  A second, two-pass description, for comparison with \<open>parseCommand\<close>. It follows the
  specification's sentence, with the space character U+0020 as the separator: first every
  character is marked as a separator (a space outside a quoted span), as dropped (a quote
  character that opens or closes a span) or as content; then the marked string is cut at
  the separators, every piece is trimmed and the empty pieces are left out. The argument
  \<open>q\<close> is the open quote, empty outside a quoted span; a span that is never closed runs to
  the end of the string.
\<close>

datatype mark = Sep | Chr jschar

fun markQuotes :: "jsstring \<Rightarrow> jsstring \<Rightarrow> mark list" where
  "markQuotes q [] = []"
| "markQuotes q (c # cs) =
     (if q = [] then
        (if c = dquote \<or> c = squote then markQuotes [c] cs
         else if c = space then Sep # markQuotes [] cs
         else Chr c # markQuotes [] cs)
      else
        (if [c] = q then markQuotes [] cs else Chr c # markQuotes q cs))"

fun splitSep :: "mark list \<Rightarrow> jsstring list" where
  "splitSep [] = [[]]"
| "splitSep (Sep # ms) = [] # splitSep ms"
| "splitSep (Chr c # ms) =
     (case splitSep ms of [] \<Rightarrow> [[c]] | t # ts \<Rightarrow> (c # t) # ts)"

definition tokenize_spec :: "jsstring \<Rightarrow> jsstring list" where
  "tokenize_spec s = filter (\<lambda>t. t \<noteq> []) (map trim (splitSep (markQuotes [] s)))"

section \<open>Regular expressions\<close>

text \<open>
  The executor's regular expressions are sequences of literals and of quantified
  character classes. \<open>matchItems\<close> is a backtracking matcher for such a sequence at the
  start of a string: it returns the strings the items matched, and the rest of the input,
  for the first way of matching in ECMAScript's order of preference (a greedy quantifier
  tries the longest run first, a lazy one the shortest).
\<close>

datatype rx_item =
    Lit jsstring
  | LitI jsstring
  | Many "jschar \<Rightarrow> bool" nat "nat option"
  | Few "jschar \<Rightarrow> bool" nat "nat option"

text \<open>
  Case folding of the \<open>i\<close> flag, as far as it decides a match against an ASCII letter:
  a code unit above 127 never folds to an ASCII one.
\<close>

definition canonicalize :: "jschar \<Rightarrow> jschar" where
  "canonicalize c = (if 0x61 \<le> c \<and> c \<le> 0x7A then c - 0x20 else c)"

definition maxRun :: "(jschar \<Rightarrow> bool) \<Rightarrow> nat option \<Rightarrow> jsstring \<Rightarrow> nat" where
  "maxRun P hi s =
     (case hi of None \<Rightarrow> length (takeWhile P s)
      | Some h \<Rightarrow> min h (length (takeWhile P s)))"

fun firstSome :: "(nat \<Rightarrow> 'a option) \<Rightarrow> nat list \<Rightarrow> 'a option" where
  "firstSome f [] = None"
| "firstSome f (k # ks) = (case f k of Some r \<Rightarrow> Some r | None \<Rightarrow> firstSome f ks)"

definition addPiece ::
  "jsstring \<Rightarrow> (jsstring list \<times> jsstring) option \<Rightarrow> (jsstring list \<times> jsstring) option" where
  "addPiece p r = (case r of None \<Rightarrow> None | Some (ps, rest) \<Rightarrow> Some (p # ps, rest))"

fun matchItems :: "rx_item list \<Rightarrow> jsstring \<Rightarrow> (jsstring list \<times> jsstring) option" where
  "matchItems [] s = Some ([], s)"
| "matchItems (Lit l # items) s =
     (if take (length l) s = l
      then addPiece l (matchItems items (drop (length l) s)) else None)"
| "matchItems (LitI l # items) s =
     (if map canonicalize (take (length l) s) = map canonicalize l
      then addPiece (take (length l) s) (matchItems items (drop (length l) s)) else None)"
| "matchItems (Many P lo hi # items) s =
     firstSome (\<lambda>k. addPiece (take k s) (matchItems items (drop k s)))
       (rev [lo ..< Suc (maxRun P hi s)])"
| "matchItems (Few P lo hi # items) s =
     firstSome (\<lambda>k. addPiece (take k s) (matchItems items (drop k s)))
       [lo ..< Suc (maxRun P hi s)]"

text \<open>\<open>RegExp.prototype.test\<close> without flags: a match at some start index.\<close>

fun rxTest :: "rx_item list \<Rightarrow> jsstring \<Rightarrow> bool" where
  "rxTest items [] = (matchItems items [] \<noteq> None)"
| "rxTest items (c # cs) = (matchItems items (c # cs) \<noteq> None \<or> rxTest items cs)"

definition whitespaces :: rx_item where
  "whitespaces = Many isWhiteSpace 1 None"

section \<open>Executor.isDangerousCommand\<close>

definition dangerousPatterns :: "rx_item list list" where
  "dangerousPatterns =
     [[Lit (js ''git''), whitespaces, Lit (js ''reset''), whitespaces, Lit (js ''--hard'')],
      [Lit (js ''git''), whitespaces, Lit (js ''clean''), whitespaces, Lit (js ''-f'')],
      [Lit (js ''git''), whitespaces, Lit (js ''push''), whitespaces, Lit (js ''--force'')],
      [Lit (js ''git''), whitespaces, Lit (js ''rebase''), whitespaces,
       Lit (js ''--interactive'')],
      [Lit (js ''git''), whitespaces, Lit (js ''branch''), whitespaces, Lit (js ''-D'')],
      [Lit (js ''git''), whitespaces, Lit (js ''tag''), whitespaces, Lit (js ''-d'')],
      [Lit (js ''rm''), whitespaces, Lit (js ''-rf'')],
      [Lit (js ''git''), whitespaces, Lit (js ''filter-branch'')]]"

definition isDangerousCommand :: "jsstring \<Rightarrow> bool" where
  "isDangerousCommand command = list_ex (\<lambda>pattern. rxTest pattern command) dangerousPatterns"

section \<open>Results, options and the outside world\<close>

text \<open>
  An \<open>await\<close>ed call either returns a value or throws; of a thrown error the executor
  reads the \<open>message\<close> only.
\<close>

datatype 'a outcome = Ret 'a | Throw jsstring

text \<open>
  The object that \<open>executeCommand\<close> and \<open>executeMultipleCommands\<close> return per command.
  A flag that the object literal leaves out is \<open>undefined\<close> in the source, which every
  reader of it takes as false; \<open>theCommand\<close> (the property \<open>command\<close>), \<open>error\<close> and
  \<open>result\<close> are \<open>None\<close> when left out.
\<close>

datatype execa_result = ExecaResult

record exec_result =
  success :: bool
  cancelled :: bool
  dryRun :: bool
  skipped :: bool
  theCommand :: "jsstring option"
  error :: "jsstring option"
  result :: "execa_result option"

definition noResult :: exec_result where
  "noResult = \<lparr>success = False, cancelled = False, dryRun = False, skipped = False,
     theCommand = None, error = None, result = None\<rparr>"

text \<open>\<open>{ success: false, cancelled: true }\<close>\<close>

definition cancelledResult :: exec_result where
  "cancelledResult = noResult\<lparr>success := False, cancelled := True\<rparr>"

text \<open>\<open>{ success: true, dryRun: true, command }\<close>\<close>

definition dryRunResult :: "jsstring \<Rightarrow> exec_result" where
  "dryRunResult c = noResult\<lparr>success := True, dryRun := True, theCommand := Some c\<rparr>"

text \<open>\<open>{ success: true, result }\<close>\<close>

definition successResult :: "execa_result \<Rightarrow> exec_result" where
  "successResult r = noResult\<lparr>success := True, result := Some r\<rparr>"

text \<open>\<open>{ success: false, error: error.message }\<close>\<close>

definition failedResult :: "jsstring \<Rightarrow> exec_result" where
  "failedResult msg = noResult\<lparr>success := False, error := Some msg\<rparr>"

text \<open>\<open>{ success: true, skipped: true, command }\<close>\<close>

definition skippedResult :: "jsstring \<Rightarrow> exec_result" where
  "skippedResult c = noResult\<lparr>success := True, skipped := True, theCommand := Some c\<rparr>"

text \<open>
  The \<open>mode\<close> option is a string: \<open>'dry'\<close>, \<open>'auto'\<close>, \<open>'interactive'\<close>, or any other
  (such as the \<open>'cancel'\<close> of the recovery menu).
\<close>

datatype mode = Dry | Auto | Interactive | OtherMode jsstring

text \<open>
  The \<open>options\<close> argument of both functions; \<open>mode\<close> is \<open>None\<close> when the caller gives
  none, the two flags are false when left out.
\<close>

record options =
  mode :: "mode option"
  dryRunOption :: bool
  skipSuggestion :: bool

text \<open>The fields of the \<open>Executor\<close> instance, as its constructor sets them.\<close>

record executor =
  thisDryRun :: bool
  autoSuggestSolutions :: bool

definition newExecutor :: executor where
  "newExecutor = \<lparr>thisDryRun = False, autoSuggestSolutions = True\<rparr>"

text \<open>
  The configuration object the executor imports (\<open>require('./config')\<close>). Of it the
  executor calls \<open>getAutoSuggestSolutions()\<close> only. The field is \<open>None\<close> when the object
  has no such method, so that the call throws a TypeError, and otherwise the truth value
  the method returns. The class \<open>ConfigManager\<close> of the repository declares no method of
  that name, in either of its versions.
\<close>

record config =
  getAutoSuggestSolutions :: "bool option"

definition ConfigManager :: config where
  "ConfigManager = \<lparr>getAutoSuggestSolutions = None\<rparr>"

text \<open>The message of the TypeError for a call of a property that is not a function.\<close>

definition notAFunction :: jsstring where
  "notAFunction = js ''config.getAutoSuggestSolutions is not a function''"

datatype action = Execute | Skip | Quit

text \<open>
  The two prompts sent to the text generator: for remediation options (failed command,
  error text), and for concrete commands (failed command, error text, chosen solution).
  The Korean wording around these parts is not modelled.
\<close>

datatype prompt =
    OptionsPrompt jsstring jsstring
  | CommandsPrompt jsstring jsstring jsstring

datatype log =
    ExecutionFailed jsstring
  | SuggestionFailed
  | ChoiceFailed
  | SpecificFailed
  | NoOptions
  | NoCommands
  | RecoveryCancelled
  | RunCancelled

text \<open>
  Everything the executor does to the outside world, in order: the questions it asks, the
  processes it spawns, its calls of the text generator, its pauses, and the console lines
  by which it reports a failure or the end of a recovery dialogue.
\<close>

datatype event =
    Confirmed jsstring "bool outcome"
  | Spawned "jsstring option" "jsstring list" "execa_result outcome"
  | Asked jsstring "action outcome"
  | AskedContinue "bool outcome"
  | Delayed nat
  | Generated prompt "jsstring outcome"
  | Selected nat "int outcome"
  | Typed "jsstring outcome"
  | ChoseMode "mode outcome"
  | Logged log

type_synonym trace = "event list"

text \<open>
  The outside world answers each request as a function of everything that happened
  before (the trace) and of the request: the user at the \<open>inquirer\<close> prompts, \<open>execa\<close>
  (which throws when the process cannot be spawned or exits non-zero), and
  \<open>aiService.generateCommand\<close>, of whose reply the executor reads the \<open>response\<close> string.
\<close>

record env =
  confirmReply :: "trace \<Rightarrow> jsstring \<Rightarrow> bool outcome"
  execa :: "trace \<Rightarrow> jsstring option \<Rightarrow> jsstring list \<Rightarrow> execa_result outcome"
  actionReply :: "trace \<Rightarrow> jsstring \<Rightarrow> action outcome"
  continueReply :: "trace \<Rightarrow> bool outcome"
  generateCommand :: "trace \<Rightarrow> prompt \<Rightarrow> jsstring outcome"
  selectReply :: "trace \<Rightarrow> nat \<Rightarrow> int outcome"
  inputReply :: "trace \<Rightarrow> jsstring outcome"
  modeReply :: "trace \<Rightarrow> mode outcome"

text \<open>
  A run of an \<open>async\<close> function from a trace: \<open>None\<close> when it does not return (the
  recovery dialogues nest deeper than the fuel allows), else what it returned or threw
  and the trace it left.
\<close>

type_synonym 'a run = "('a outcome \<times> trace) option"

text \<open>\<open>suggestErrorSolution\<close> as the other functions see it: (command, errorMessage).\<close>

type_synonym recovery = "jsstring \<Rightarrow> jsstring \<Rightarrow> trace \<Rightarrow> unit run"

section \<open>Executor.executeCommand\<close>

definition confirmExecution :: "env \<Rightarrow> jsstring \<Rightarrow> trace \<Rightarrow> bool outcome \<times> trace" where
  "confirmExecution env command tr =
     (let answer = confirmReply env tr command in (answer, tr @ [Confirmed command answer]))"

text \<open>
  The \<open>try\<close> block from the dry-run check on: the command is parsed, \<open>parsedCommand[0]\<close>
  (which is \<open>undefined\<close> for an empty list) is the executable and the rest its arguments.
\<close>

definition spawnCommand ::
  "executor \<Rightarrow> env \<Rightarrow> jsstring \<Rightarrow> options \<Rightarrow> trace \<Rightarrow> exec_result outcome \<times> trace" where
  "spawnCommand ex env command opts tr =
     (if thisDryRun ex \<or> dryRunOption opts then (Ret (dryRunResult command), tr)
      else
        (let parsedCommand = parseCommand command;
             cmd = (case parsedCommand of [] \<Rightarrow> None | c # _ \<Rightarrow> Some c);
             cmdArgs = drop 1 parsedCommand;
             r = execa env tr cmd cmdArgs
         in (case r of Throw e \<Rightarrow> Throw e | Ret v \<Rightarrow> Ret (successResult v),
             tr @ [Spawned cmd cmdArgs r])))"

text \<open>The whole \<open>try\<close> block: what it returns, or the error it throws into \<open>catch\<close>.\<close>

definition tryExecute ::
  "executor \<Rightarrow> env \<Rightarrow> jsstring \<Rightarrow> options \<Rightarrow> trace \<Rightarrow> exec_result outcome \<times> trace" where
  "tryExecute ex env command opts tr =
     (if isDangerousCommand command then
        (case confirmExecution env command tr of
           (Throw e, tr1) \<Rightarrow> (Throw e, tr1)
         | (Ret confirmed, tr1) \<Rightarrow>
             if \<not> confirmed then (Ret cancelledResult, tr1 @ [Logged RunCancelled])
             else spawnCommand ex env command opts tr1)
      else spawnCommand ex env command opts tr)"

text \<open>
  \<open>executeCommand\<close> with its \<open>catch\<close> block. \<open>suggest\<close> stands for
  \<open>this.suggestErrorSolution\<close>. The call of the getter stands in the \<open>catch\<close> block,
  under no \<open>try\<close>: what it throws, \<open>executeCommand\<close> throws.
\<close>

definition executeCommand ::
  "recovery \<Rightarrow> config \<Rightarrow> executor \<Rightarrow> env \<Rightarrow> jsstring \<Rightarrow> options \<Rightarrow> trace \<Rightarrow> exec_result run"
  where
  "executeCommand suggest cfg ex env command opts tr =
     (case tryExecute ex env command opts tr of
        (Ret r, tr1) \<Rightarrow> Some (Ret r, tr1)
      | (Throw msg, tr1) \<Rightarrow>
          (let tr2 = tr1 @ [Logged (ExecutionFailed msg)] in
           case getAutoSuggestSolutions cfg of
             None \<Rightarrow> Some (Throw notAFunction, tr2)
           | Some autoSuggestEnabled \<Rightarrow>
               if autoSuggestEnabled \<and> \<not> skipSuggestion opts then
                 (case suggest command msg tr2 of
                    None \<Rightarrow> None
                  | Some (Throw e, tr3) \<Rightarrow> Some (Throw e, tr3)
                  | Some (Ret u, tr3) \<Rightarrow> Some (Ret (failedResult msg), tr3))
               else Some (Ret (failedResult msg), tr2)))"

section \<open>Executor.executeMultipleCommands\<close>

text \<open>The options of every call the batch makes: \<open>{ dryRun: false }\<close>.\<close>

definition perCommandOptions :: options where
  "perCommandOptions = \<lparr>mode = None, dryRunOption = False, skipSuggestion = False\<rparr>"

text \<open>
  The \<open>for\<close> loop of the \<open>'auto'\<close> mode, from command \<open>i\<close> on; \<open>results\<close> holds the
  results pushed so far. \<open>i < commands.length - 1\<close> holds when commands remain.
\<close>

fun autoLoop ::
  "recovery \<Rightarrow> config \<Rightarrow> executor \<Rightarrow> env \<Rightarrow> jsstring list \<Rightarrow> exec_result list \<Rightarrow> trace \<Rightarrow>
   exec_result list run" where
  "autoLoop suggest cfg ex env [] results tr = Some (Ret results, tr)"
| "autoLoop suggest cfg ex env (command # rest) results tr =
     (case executeCommand suggest cfg ex env command perCommandOptions tr of
        None \<Rightarrow> None
      | Some (Throw e, tr1) \<Rightarrow> Some (Throw e, tr1)
      | Some (Ret r, tr1) \<Rightarrow>
          if \<not> success r \<and> \<not> cancelled r then Some (Ret (results @ [r]), tr1)
          else if cancelled r then Some (Ret (results @ [r]), tr1)
          else if rest \<noteq> [] then
            autoLoop suggest cfg ex env rest (results @ [r]) (tr1 @ [Delayed 500])
          else autoLoop suggest cfg ex env rest (results @ [r]) tr1)"

text \<open>The \<open>for\<close> loop of the \<open>'interactive'\<close> mode.\<close>

fun interactiveLoop ::
  "recovery \<Rightarrow> config \<Rightarrow> executor \<Rightarrow> env \<Rightarrow> jsstring list \<Rightarrow> exec_result list \<Rightarrow> trace \<Rightarrow>
   exec_result list run" where
  "interactiveLoop suggest cfg ex env [] results tr = Some (Ret results, tr)"
| "interactiveLoop suggest cfg ex env (command # rest) results tr =
     (let answer = actionReply env tr command; tr1 = tr @ [Asked command answer] in
      case answer of
        Throw e \<Rightarrow> Some (Throw e, tr1)
      | Ret Quit \<Rightarrow> Some (Ret results, tr1)
      | Ret Skip \<Rightarrow>
          interactiveLoop suggest cfg ex env rest (results @ [skippedResult command]) tr1
      | Ret Execute \<Rightarrow>
          (case executeCommand suggest cfg ex env command perCommandOptions tr1 of
             None \<Rightarrow> None
           | Some (Throw e, tr2) \<Rightarrow> Some (Throw e, tr2)
           | Some (Ret r, tr2) \<Rightarrow>
               if \<not> success r \<and> \<not> cancelled r then
                 (let continue = continueReply env tr2; tr3 = tr2 @ [AskedContinue continue] in
                  case continue of
                    Throw e \<Rightarrow> Some (Throw e, tr3)
                  | Ret continueOnError \<Rightarrow>
                      if \<not> continueOnError then Some (Ret (results @ [r]), tr3)
                      else interactiveLoop suggest cfg ex env rest (results @ [r]) tr3)
               else interactiveLoop suggest cfg ex env rest (results @ [r]) tr2))"

text \<open>\<open>const { mode = 'dry' } = options\<close>\<close>

definition modeOf :: "options \<Rightarrow> mode" where
  "modeOf opts = (case mode opts of None \<Rightarrow> Dry | Some m \<Rightarrow> m)"

definition executeMultipleCommands ::
  "recovery \<Rightarrow> config \<Rightarrow> executor \<Rightarrow> env \<Rightarrow> jsstring list \<Rightarrow> options \<Rightarrow> trace \<Rightarrow>
   exec_result list run" where
  "executeMultipleCommands suggest cfg ex env commands opts tr =
     (case modeOf opts of
        Dry \<Rightarrow> Some (Ret (map dryRunResult commands), tr)
      | Auto \<Rightarrow> autoLoop suggest cfg ex env commands [] tr
      | Interactive \<Rightarrow> interactiveLoop suggest cfg ex env commands [] tr
      | OtherMode m \<Rightarrow> Some (Ret [], tr))"

section \<open>The recovery dialogue\<close>

subsection \<open>Executor.removeMarkdown and Executor.parseSolutionOptions\<close>

text \<open>\<open>.\<close> matches every code unit but a line terminator; \<open>\d\<close> the ASCII digits.\<close>

definition anyChar :: "jschar \<Rightarrow> bool" where
  "anyChar c = (\<not> isLineTerminator c)"

definition isDigit :: "jschar \<Rightarrow> bool" where
  "isDigit c = (0x30 \<le> c \<and> c \<le> 0x39)"

text \<open>
  \<open>text.replace(/d(.+?)d/g, '$1')\<close> for a delimiter \<open>d\<close>: the string is scanned from the
  left, every match is replaced by its group, and the scan goes on behind the match.
  \<open>k\<close> counts the characters of the last match that are still to be passed over.
\<close>

fun unwrapAll :: "jsstring \<Rightarrow> nat \<Rightarrow> jsstring \<Rightarrow> jsstring" where
  "unwrapAll d k [] = []"
| "unwrapAll d k (c # cs) =
     (if 0 < k then unwrapAll d (k - 1) cs
      else
        (case matchItems [Lit d, Few anyChar 1 None, Lit d] (c # cs) of
           Some ([d1, g, d2], rest) \<Rightarrow> g @ unwrapAll d (length cs - length rest) cs
         | _ \<Rightarrow> c # unwrapAll d 0 cs))"

definition removeMarkdown :: "jsstring \<Rightarrow> jsstring" where
  "removeMarkdown text =
     trim (unwrapAll (js ''~~'') 0 (unwrapAll (js ''`'') 0
       (unwrapAll (js ''*'') 0 (unwrapAll (js ''**'') 0 text))))"

record solution_option =
  title :: jsstring
  description :: jsstring
  fullText :: jsstring

text \<open>\<open>String.prototype.split\<close> at a one-character separator.\<close>

fun splitAt :: "jschar \<Rightarrow> jsstring \<Rightarrow> jsstring list" where
  "splitAt d [] = [[]]"
| "splitAt d (c # cs) =
     (if c = d then [] # splitAt d cs
      else (case splitAt d cs of [] \<Rightarrow> [[c]] | t # ts \<Rightarrow> (c # t) # ts))"

text \<open>
  The body of the loop over the lines: \<open>/^\d+\.\s*(.+)/\<close> on the line, then
  \<open>/^(.+?):\s*(.+)/\<close> on the cleaned text of its group.
\<close>

definition parseOptionLine :: "jsstring \<Rightarrow> solution_option option" where
  "parseOptionLine line =
     (case matchItems [Many isDigit 1 None, Lit (js ''.''), Many isWhiteSpace 0 None,
                       Many anyChar 1 None] line of
        Some ([digits, dot, blank, g], rest) \<Rightarrow>
          (let full = removeMarkdown (trim g) in
           case matchItems [Few anyChar 1 None, Lit (js '':''), Many isWhiteSpace 0 None,
                            Many anyChar 1 None] full of
             Some ([t, colon, blank2, d], rest2) \<Rightarrow>
               Some \<lparr>title = trim t, description = trim d, fullText = full\<rparr>
           | _ \<Rightarrow>
               Some \<lparr>title = (if 40 < length full then take 37 full @ js ''...'' else full),
                     description = full, fullText = full\<rparr>)
      | _ \<Rightarrow> None)"

definition parseSolutionOptions :: "jsstring \<Rightarrow> solution_option list" where
  "parseSolutionOptions solutionOptions =
     List.map_filter parseOptionLine (splitAt newline solutionOptions)"

subsection \<open>The command pattern of Executor.executeSpecificSolution\<close>

text \<open>
  \<open>/(?:^|\n)(?:`{0,3})\s*(git\s+[^\n`]+)/gmi\<close>: the items behind the group \<open>(?:^|\n)\<close>,
  then the two ways to begin a match at a position: at the start of a line (\<open>bol\<close>: the
  position is the first one or follows a line terminator), or on a newline.
\<close>

definition gitItems :: "rx_item list" where
  "gitItems =
     [Many (\<lambda>c. c = backtick) 0 (Some 3), Many isWhiteSpace 0 None, LitI (js ''git''),
      Many isWhiteSpace 1 None, Many (\<lambda>c. c \<noteq> newline \<and> c \<noteq> backtick) 1 None]"

definition gitMatchAt :: "bool \<Rightarrow> jsstring \<Rightarrow> jsstring option" where
  "gitMatchAt bol s =
     (case (if bol then matchItems gitItems s else None) of
        Some (ps, rest) \<Rightarrow> Some rest
      | None \<Rightarrow>
          (case s of
             [] \<Rightarrow> None
           | c # cs \<Rightarrow> if c = newline then map_option snd (matchItems gitItems cs) else None))"

text \<open>
  \<open>solution.match(gitCommandPattern)\<close> with the \<open>g\<close> flag: all matches from the left, each
  search starting where the match before it ended. No match begins at the end of the
  string, since every match holds the letters of \<open>git\<close>. The empty list stands for the
  \<open>null\<close> that \<open>match\<close> returns when nothing matches.
\<close>

fun gitScan :: "bool \<Rightarrow> nat \<Rightarrow> jsstring \<Rightarrow> jsstring list" where
  "gitScan bol k [] = []"
| "gitScan bol k (c # cs) =
     (if 0 < k then gitScan (isLineTerminator c) (k - 1) cs
      else
        (case gitMatchAt bol (c # cs) of
           None \<Rightarrow> gitScan (isLineTerminator c) 0 cs
         | Some rest \<Rightarrow>
             take (Suc (length cs) - length rest) (c # cs)
               # gitScan (isLineTerminator c) (length cs - length rest) cs))"

text \<open>\<open>match.replace(/[`\n]/g, '').trim()\<close>\<close>

definition cleanMatch :: "jsstring \<Rightarrow> jsstring" where
  "cleanMatch m = trim (filter (\<lambda>c. c \<noteq> backtick \<and> c \<noteq> newline) m)"

subsection \<open>The four functions of the dialogue\<close>

text \<open>
  \<open>try { ... } catch (error) { console.log(...) }\<close> around a body: an error the body
  throws is logged and the function returns normally.
\<close>

definition catching :: "log \<Rightarrow> unit run \<Rightarrow> unit run" where
  "catching line r =
     (case r of
        None \<Rightarrow> None
      | Some (Throw e, tr) \<Rightarrow> Some (Ret (), tr @ [Logged line])
      | Some (Ret u, tr) \<Rightarrow> Some (Ret u, tr))"

definition cancelMode :: mode where
  "cancelMode = OtherMode (js ''cancel'')"

text \<open>
  \<open>executeSpecificSolution\<close> has no \<open>try\<close> of its own. The batch it starts is given
  \<open>{ mode: executionMode, skipSuggestion: true }\<close>.
\<close>

definition executeSpecificSolution ::
  "recovery \<Rightarrow> config \<Rightarrow> executor \<Rightarrow> env \<Rightarrow> jsstring \<Rightarrow> trace \<Rightarrow> unit run" where
  "executeSpecificSolution suggest cfg ex env solution tr =
     (let matches = gitScan True 0 solution in
      if matches \<noteq> [] then
        (let commands = map cleanMatch matches;
             answer = modeReply env tr;
             tr1 = tr @ [ChoseMode answer]
         in case answer of
              Throw e \<Rightarrow> Some (Throw e, tr1)
            | Ret executionMode \<Rightarrow>
                if executionMode = cancelMode then Some (Ret (), tr1 @ [Logged RunCancelled])
                else
                  (case executeMultipleCommands suggest cfg ex env commands
                          \<lparr>mode = Some executionMode, dryRunOption = False,
                           skipSuggestion = True\<rparr> tr1 of
                     None \<Rightarrow> None
                   | Some (Throw e, tr2) \<Rightarrow> Some (Throw e, tr2)
                   | Some (Ret results, tr2) \<Rightarrow> Some (Ret (), tr2)))
      else Some (Ret (), tr @ [Logged NoCommands]))"

definition getSpecificSolution ::
  "recovery \<Rightarrow> config \<Rightarrow> executor \<Rightarrow> env \<Rightarrow> jsstring \<Rightarrow> jsstring \<Rightarrow> jsstring \<Rightarrow> trace \<Rightarrow>
   unit run" where
  "getSpecificSolution suggest cfg ex env command errorMessage selectedSolution tr =
     catching SpecificFailed
       (let p = CommandsPrompt command errorMessage selectedSolution;
            reply = generateCommand env tr p;
            tr1 = tr @ [Generated p reply]
        in case reply of
             Throw e \<Rightarrow> Some (Throw e, tr1)
           | Ret response \<Rightarrow> executeSpecificSolution suggest cfg ex env response tr1)"

text \<open>
  The list prompt offers the indices of the parsed options, the index behind them for
  free text, and \<open>-1\<close> to cancel. The free text is the input trimmed (the prompt's
  \<open>filter\<close>). Reading \<open>fullText\<close> of an option that does not exist throws.
\<close>

definition noSuchOption :: jsstring where
  "noSuchOption = js ''Cannot read properties of undefined''"

definition getUserSolutionChoice ::
  "recovery \<Rightarrow> config \<Rightarrow> executor \<Rightarrow> env \<Rightarrow> jsstring \<Rightarrow> jsstring \<Rightarrow> jsstring \<Rightarrow> trace \<Rightarrow>
   unit run" where
  "getUserSolutionChoice suggest cfg ex env command errorMessage solutionOptions tr =
     catching ChoiceFailed
       (let opts = parseSolutionOptions solutionOptions in
        if length opts = 0 then Some (Ret (), tr @ [Logged NoOptions])
        else
          (let directInputIndex = length opts;
               answer = selectReply env tr (length opts);
               tr1 = tr @ [Selected (length opts) answer]
           in case answer of
                Throw e \<Rightarrow> Some (Throw e, tr1)
              | Ret selectedIndex \<Rightarrow>
                  if selectedIndex = - 1 then Some (Ret (), tr1 @ [Logged RecoveryCancelled])
                  else if selectedIndex = int directInputIndex then
                    (let typed = inputReply env tr1; tr2 = tr1 @ [Typed typed] in
                     case typed of
                       Throw e \<Rightarrow> Some (Throw e, tr2)
                     | Ret input \<Rightarrow>
                         getSpecificSolution suggest cfg ex env command errorMessage
                           (trim input) tr2)
                  else if 0 \<le> selectedIndex \<and> selectedIndex < int (length opts) then
                    getSpecificSolution suggest cfg ex env command errorMessage
                      (fullText (opts ! nat selectedIndex)) tr1
                  else Some (Throw noSuchOption, tr1)))"

text \<open>
  The body of \<open>suggestErrorSolution\<close>; \<open>suggest\<close> is the same function, as the commands of
  the replacement batch reach it.
\<close>

definition suggestBody ::
  "recovery \<Rightarrow> config \<Rightarrow> executor \<Rightarrow> env \<Rightarrow> jsstring \<Rightarrow> jsstring \<Rightarrow> trace \<Rightarrow> unit run" where
  "suggestBody suggest cfg ex env command errorMessage tr =
     catching SuggestionFailed
       (let p = OptionsPrompt command errorMessage;
            reply = generateCommand env tr p;
            tr1 = tr @ [Generated p reply]
        in case reply of
             Throw e \<Rightarrow> Some (Throw e, tr1)
           | Ret response \<Rightarrow>
               getUserSolutionChoice suggest cfg ex env command errorMessage response tr1)"

text \<open>
  \<open>suggestErrorSolution\<close> calls itself through the replacement batch. The fuel bounds how
  deep the dialogues may nest: with none left the run does not return.
\<close>

fun suggestErrorSolution ::
  "nat \<Rightarrow> config \<Rightarrow> executor \<Rightarrow> env \<Rightarrow> jsstring \<Rightarrow> jsstring \<Rightarrow> trace \<Rightarrow> unit run" where
  "suggestErrorSolution 0 cfg ex env command errorMessage tr = None"
| "suggestErrorSolution (Suc fuel) cfg ex env command errorMessage tr =
     suggestBody (suggestErrorSolution fuel cfg ex env) cfg ex env command errorMessage tr"

text \<open>The executor as its callers use it, for a given fuel.\<close>

definition run_executeCommand ::
  "nat \<Rightarrow> config \<Rightarrow> executor \<Rightarrow> env \<Rightarrow> jsstring \<Rightarrow> options \<Rightarrow> trace \<Rightarrow> exec_result run" where
  "run_executeCommand fuel cfg ex env =
     executeCommand (suggestErrorSolution fuel cfg ex env) cfg ex env"

definition run_executeMultipleCommands ::
  "nat \<Rightarrow> config \<Rightarrow> executor \<Rightarrow> env \<Rightarrow> jsstring list \<Rightarrow> options \<Rightarrow> trace \<Rightarrow>
   exec_result list run" where
  "run_executeMultipleCommands fuel cfg ex env =
     executeMultipleCommands (suggestErrorSolution fuel cfg ex env) cfg ex env"

section \<open>Executor.printExecutionSummary\<close>

text \<open>The five filters of the summary, one per category it counts.\<close>

definition isSuccessful :: "exec_result \<Rightarrow> bool" where
  "isSuccessful r = (success r \<and> \<not> dryRun r \<and> \<not> skipped r)"

definition isFailed :: "exec_result \<Rightarrow> bool" where
  "isFailed r = (\<not> success r \<and> \<not> cancelled r)"

definition isCancelled :: "exec_result \<Rightarrow> bool" where
  "isCancelled r = cancelled r"

definition isSkipped :: "exec_result \<Rightarrow> bool" where
  "isSkipped r = skipped r"

definition isDryRun :: "exec_result \<Rightarrow> bool" where
  "isDryRun r = dryRun r"

record summary =
  successful :: nat
  failed :: nat
  cancelledCount :: nat
  skippedCount :: nat
  dryRunCount :: nat

definition summaryCounts :: "exec_result list \<Rightarrow> summary" where
  "summaryCounts results =
     \<lparr>successful = length (filter isSuccessful results),
      failed = length (filter isFailed results),
      cancelledCount = length (filter isCancelled results),
      skippedCount = length (filter isSkipped results),
      dryRunCount = length (filter isDryRun results)\<rparr>"

text \<open>With no result the function returns before it counts: \<open>None\<close>.\<close>

definition printExecutionSummary :: "exec_result list \<Rightarrow> summary option" where
  "printExecutionSummary results =
     (if length results = 0 then None else Some (summaryCounts results))"

section \<open>Notions the properties are stated with\<close>

text \<open>
  The five kinds of result of the specification, read off a result's flags by the
  filters of the summary: \<open>kindsOf\<close> lists every category that counts the result.
\<close>

datatype kind = Succeeded | Failed | Cancelled | Skipped | PreviewedOnly

definition kindsOf :: "exec_result \<Rightarrow> kind list" where
  "kindsOf r =
     (if isSuccessful r then [Succeeded] else []) @
     (if isFailed r then [Failed] else []) @
     (if isCancelled r then [Cancelled] else []) @
     (if isSkipped r then [Skipped] else []) @
     (if isDryRun r then [PreviewedOnly] else [])"

text \<open>The events of a trace that spawn a process.\<close>

fun isSpawned :: "event \<Rightarrow> bool" where
  "isSpawned (Spawned cmd cmdArgs r) = True"
| "isSpawned e = False"

definition autoOptions :: options where
  "autoOptions = \<lparr>mode = Some Auto, dryRunOption = False, skipSuggestion = False\<rparr>"

definition interactiveOptions :: options where
  "interactiveOptions = \<lparr>mode = Some Interactive, dryRunOption = False, skipSuggestion = False\<rparr>"

text \<open>
  A result halts the automatic mode when it is Failed or Cancelled. \<open>oneKind\<close>: exactly
  one category counts the result.
\<close>

definition halts :: "exec_result \<Rightarrow> bool" where
  "halts r = (isFailed r \<or> isCancelled r)"

definition oneKind :: "exec_result \<Rightarrow> bool" where
  "oneKind r = (length (kindsOf r) = 1)"

text \<open>
  \<open>resultFor c r\<close>: \<open>r\<close> is a result of the command \<open>c\<close>, that is its dry-run result,
  its Skipped result, or a result that \<open>executeCommand\<close> returns for \<open>c\<close> (with the
  options of the batch) from some state of the world.
\<close>

definition resultFor ::
  "recovery \<Rightarrow> config \<Rightarrow> executor \<Rightarrow> env \<Rightarrow> jsstring \<Rightarrow> exec_result \<Rightarrow> bool" where
  "resultFor suggest cfg ex env c r =
     (r = dryRunResult c \<or> r = skippedResult c \<or>
      (\<exists>t t'. executeCommand suggest cfg ex env c perCommandOptions t = Some (Ret r, t')))"

text \<open>A run of a batch with the results \<open>acc\<close> of earlier commands put in front.\<close>

definition withEarlier :: "exec_result list \<Rightarrow> exec_result list run \<Rightarrow> exec_result list run" where
  "withEarlier acc r =
     (case r of
        None \<Rightarrow> None
      | Some (Throw e, t) \<Rightarrow> Some (Throw e, t)
      | Some (Ret rs, t) \<Rightarrow> Some (Ret (acc @ rs), t))"

text \<open>
  Two outside worlds for the examples. In \<open>quietWorld\<close> every process exits with 0, the
  user declines every confirmation, skips nothing and quits nothing. In \<open>brokenWorld\<close>
  every process fails with the message \<open>boom\<close>; the text generator proposes one option
  and then the command \<open>git push\<close>; the user picks the first option and the automatic
  mode in the first dialogue, and cancels the second.
\<close>

definition quietWorld :: env where
  "quietWorld =
     \<lparr>confirmReply = (\<lambda>tr c. Ret False),
      execa = (\<lambda>tr cmd cmdArgs. Ret ExecaResult),
      actionReply = (\<lambda>tr c. Ret Execute),
      continueReply = (\<lambda>tr. Ret False),
      generateCommand = (\<lambda>tr p. Throw (js ''offline'')),
      selectReply = (\<lambda>tr n. Ret (- 1)),
      inputReply = (\<lambda>tr. Ret []),
      modeReply = (\<lambda>tr. Ret cancelMode)\<rparr>"

fun isSelected :: "event \<Rightarrow> bool" where
  "isSelected (Selected n a) = True"
| "isSelected e = False"

definition brokenWorld :: env where
  "brokenWorld =
     \<lparr>confirmReply = (\<lambda>tr c. Ret True),
      execa = (\<lambda>tr cmd cmdArgs. Throw (js ''boom'')),
      actionReply = (\<lambda>tr c. Ret Execute),
      continueReply = (\<lambda>tr. Ret False),
      generateCommand =
        (\<lambda>tr p. case p of
           OptionsPrompt c m \<Rightarrow> Ret (js ''1. Retry: push once more'')
         | CommandsPrompt c m s \<Rightarrow> Ret (js ''git push'')),
      selectReply = (\<lambda>tr n. if list_ex isSelected tr then Ret (- 1) else Ret 0),
      inputReply = (\<lambda>tr. Ret []),
      modeReply = (\<lambda>tr. Ret Auto)\<rparr>"

text \<open>
  A third world: as \<open>quietWorld\<close>, but the user runs the first command that is offered and
  quits at the second question.
\<close>

fun isAsked :: "event \<Rightarrow> bool" where
  "isAsked (Asked c a) = True"
| "isAsked e = False"

definition quitSecondWorld :: env where
  "quitSecondWorld =
     quietWorld\<lparr>actionReply := (\<lambda>tr c. if list_ex isAsked tr then Ret Quit else Ret Execute)\<rparr>"

text \<open>
  A fourth world: as \<open>brokenWorld\<close>, but the user picks the first option in every
  dialogue.
\<close>

definition stubbornWorld :: env where
  "stubbornWorld = brokenWorld\<lparr>selectReply := (\<lambda>tr n. Ret 0)\<rparr>"

text \<open>
  A configuration object as the executor expects it, which the repository does not have:
  one with the getter, returning \<open>enabled\<close>.
\<close>

definition configWith :: "bool \<Rightarrow> config" where
  "configWith enabled = \<lparr>getAutoSuggestSolutions = Some enabled\<rparr>"

section \<open>Properties of the tokenizer\<close>

lemma trim_Nil_iff: "trim s = [] \<longleftrightarrow> list_all isWhiteSpace s"
proof
  assume t: "trim s = []"
  have "dropWhile isWhiteSpace s = []"
  proof (rule ccontr)
    assume ne: "dropWhile isWhiteSpace s \<noteq> []"
    then have "\<not> isWhiteSpace (hd (dropWhile isWhiteSpace s))"
      by (rule hd_dropWhile)
    moreover from t have "\<forall>x \<in> set (rev (dropWhile isWhiteSpace s)). isWhiteSpace x"
      by (simp add: trim_def)
    ultimately show False using ne by simp
  qed
  then show "list_all isWhiteSpace s"
    by (simp add: list_all_iff)
next
  assume "list_all isWhiteSpace s"
  then have "dropWhile isWhiteSpace s = []"
    by (simp add: list_all_iff)
  then have "trim s = rev (dropWhile isWhiteSpace (rev []))"
    by (simp only: trim_def)
  then show "trim s = []" by simp
qed

lemma trim_blank_append: "trim ws = [] \<Longrightarrow> trim (ws @ s) = trim s"
proof -
  assume "trim ws = []"
  then have "\<And>x. x \<in> set ws \<Longrightarrow> isWhiteSpace x"
    by (simp add: trim_Nil_iff list_all_iff)
  then have "dropWhile isWhiteSpace (ws @ s) = dropWhile isWhiteSpace s"
    by (rule dropWhile_append2)
  then show ?thesis by (simp add: trim_def)
qed

lemma splitSep_not_Nil: "splitSep ms \<noteq> []"
  by (induction ms rule: splitSep.induct) (simp_all split: list.splits)

lemma splitSep_Chr: "splitSep (Chr c # ms) = (c # hd (splitSep ms)) # tl (splitSep ms)"
  using splitSep_not_Nil [of ms] by (cases "splitSep ms") simp_all

declare splitSep.simps(3) [simp del]

text \<open>
  The pieces that remain to be produced from a loop state: the current partial argument
  \<open>cur\<close> goes in front of the first piece of the rest of the input.
\<close>

lemma parse_refines_aux:
  "inQuotes st = (quoteChar st \<noteq> []) \<Longrightarrow>
   parseFinish (foldl parseStep st s) =
     args st @ filter (\<lambda>t. t \<noteq> [])
       (map trim ((current st @ hd (splitSep (markQuotes (quoteChar st) s)))
                  # tl (splitSep (markQuotes (quoteChar st) s))))"
proof (induction s arbitrary: st)
  case Nil
  then show ?case by (simp add: parseFinish_def)
next
  case (Cons c s)
  let ?st' = "parseStep st c"
  have wf': "inQuotes ?st' = (quoteChar ?st' \<noteq> [])"
    using Cons.prems by (simp add: parseStep_def)
  have IH: "parseFinish (foldl parseStep ?st' s) =
     args ?st' @ filter (\<lambda>t. t \<noteq> [])
       (map trim ((current ?st' @ hd (splitSep (markQuotes (quoteChar ?st') s)))
                  # tl (splitSep (markQuotes (quoteChar ?st') s))))"
    by (rule Cons.IH [OF wf'])
  show ?case
  proof (cases "quoteChar st = []")
    case outside: True
    then have nq: "\<not> inQuotes st" using Cons.prems by simp
    show ?thesis
    proof (cases "c = dquote \<or> c = squote")
      case True
      then have step: "parseStep st c = st\<lparr>inQuotes := True, quoteChar := [c]\<rparr>"
        using nq by (simp add: parseStep_def)
      show ?thesis using IH outside True step by simp
    next
      case noquote: False
      show ?thesis
      proof (cases "c = space")
        case sp: True
        obtain t ts where split: "splitSep (markQuotes [] s) = t # ts"
          using splitSep_not_Nil by (cases "splitSep (markQuotes [] s)") auto
        show ?thesis
        proof (cases "trim (current st) = []")
          case True
          then have step: "parseStep st c = st"
            using nq noquote sp by (simp add: parseStep_def)
          have "trim (current st @ t) = trim t" using True by (rule trim_blank_append)
          then show ?thesis
            using IH outside noquote sp split True step by simp
        next
          case False
          then have step: "parseStep st c =
              st\<lparr>args := args st @ [trim (current st)], current := []\<rparr>"
            using nq noquote sp by (simp add: parseStep_def)
          show ?thesis
            using IH outside noquote sp split False step by simp
        qed
      next
        case False
        then have step: "parseStep st c = st\<lparr>current := current st @ [c]\<rparr>"
          using nq noquote outside by (simp add: parseStep_def)
        show ?thesis
          using IH outside noquote False step by (simp add: splitSep_Chr)
      qed
    qed
  next
    case inside: False
    then have q: "inQuotes st" using Cons.prems by simp
    show ?thesis
    proof (cases "[c] = quoteChar st")
      case True
      then have step: "parseStep st c = st\<lparr>inQuotes := False, quoteChar := []\<rparr>"
        using q by (simp add: parseStep_def)
      show ?thesis using IH inside True step by simp
    next
      case False
      then have step: "parseStep st c = st\<lparr>current := current st @ [c]\<rparr>"
        using q by (simp add: parseStep_def)
      show ?thesis using IH inside False step by (simp add: splitSep_Chr)
    qed
  qed
qed

lemma parseCommand_refines: "parseCommand s = tokenize_spec s"
proof -
  have "inQuotes parseInit = (quoteChar parseInit \<noteq> [])"
    by (simp add: parseInit_def)
  from parse_refines_aux [OF this, of s] show ?thesis
    using splitSep_not_Nil [of "markQuotes [] s"]
    by (simp add: parseCommand_def parseLoop_def tokenize_spec_def parseInit_def)
qed

lemma whitespace_not_quote: "isWhiteSpace c \<Longrightarrow> c \<noteq> dquote \<and> c \<noteq> squote"
  by (auto simp add: isWhiteSpace_def dquote_def squote_def)

lemma parse_blank_aux:
  "list_all isWhiteSpace s \<Longrightarrow> \<not> inQuotes st \<Longrightarrow> trim (current st) = [] \<Longrightarrow>
   parseFinish (foldl parseStep st s) = args st"
proof (induction s arbitrary: st)
  case Nil
  then show ?case by (simp add: parseFinish_def)
next
  case (Cons c s)
  from Cons.prems have ws: "isWhiteSpace c" and rest: "list_all isWhiteSpace s" by simp_all
  from ws have nq: "c \<noteq> dquote" "c \<noteq> squote" using whitespace_not_quote by blast+
  show ?case
  proof (cases "c = space")
    case True
    then have "parseStep st c = st"
      using Cons.prems(2,3) nq by (simp add: parseStep_def)
    then show ?thesis using Cons.IH [OF rest Cons.prems(2,3)] by simp
  next
    case False
    then have step: "parseStep st c = st\<lparr>current := current st @ [c]\<rparr>"
      using Cons.prems(2) nq by (simp add: parseStep_def)
    have "trim (current st @ [c]) = []"
      using Cons.prems(3) ws by (simp add: trim_Nil_iff)
    then have "parseFinish (foldl parseStep (st\<lparr>current := current st @ [c]\<rparr>) s) =
        args (st\<lparr>current := current st @ [c]\<rparr>)"
      using Cons.prems(2) by (intro Cons.IH [OF rest]) simp_all
    then show ?thesis using step by simp
  qed
qed

lemma parseCommand_blank: "list_all isWhiteSpace s \<Longrightarrow> parseCommand s = []"
  using parse_blank_aux [of s parseInit]
  by (simp add: parseCommand_def parseLoop_def parseInit_def trim_def)

text \<open>Inside a quoted span the loop holds the quote character that opened it.\<close>

lemma parseStep_quote_inv:
  "(inQuotes st \<longrightarrow> quoteChar st = [dquote] \<or> quoteChar st = [squote]) \<Longrightarrow>
   (inQuotes (parseStep st c) \<longrightarrow>
      quoteChar (parseStep st c) = [dquote] \<or> quoteChar (parseStep st c) = [squote])"
  by (auto simp add: parseStep_def)

lemma parseLoop_quote_inv_aux:
  "(inQuotes st \<longrightarrow> quoteChar st = [dquote] \<or> quoteChar st = [squote]) \<Longrightarrow>
   (inQuotes (foldl parseStep st s) \<longrightarrow>
      quoteChar (foldl parseStep st s) = [dquote] \<or> quoteChar (foldl parseStep st s) = [squote])"
proof (induction s arbitrary: st)
  case Nil
  then show ?case by simp
next
  case (Cons c s)
  have "inQuotes (parseStep st c) \<longrightarrow>
      quoteChar (parseStep st c) = [dquote] \<or> quoteChar (parseStep st c) = [squote]"
    using Cons.prems by (rule parseStep_quote_inv)
  from Cons.IH [OF this] show ?case by simp
qed

lemma parseCommand_unterminated:
  assumes "inQuotes (parseLoop s)"
  shows "parseCommand (s @ quoteChar (parseLoop s)) = parseCommand s"
proof -
  let ?st = "parseLoop s"
  have "inQuotes parseInit \<longrightarrow> quoteChar parseInit = [dquote] \<or> quoteChar parseInit = [squote]"
    by (simp add: parseInit_def)
  from parseLoop_quote_inv_aux [OF this, of s] assms
  have q: "quoteChar ?st = [dquote] \<or> quoteChar ?st = [squote]"
    by (simp add: parseLoop_def)
  then obtain c where c: "quoteChar ?st = [c]" by auto
  have "parseStep ?st c = ?st\<lparr>inQuotes := False, quoteChar := []\<rparr>"
    using assms c by (simp add: parseStep_def)
  then have "parseFinish (parseStep ?st c) = parseFinish ?st"
    by (simp add: parseFinish_def)
  moreover have "parseLoop (s @ [c]) = parseStep ?st c"
    by (simp add: parseLoop_def)
  ultimately show ?thesis by (simp add: parseCommand_def c)
qed

lemma parseCommand_example:
  \<open>parseCommand (js ''git commit -m "fix: a b"'') =
     [js ''git'', js ''commit'', js ''-m'', js ''fix: a b'']\<close>
  by code_simp

text \<open>
  C4, as the code has it. \<open>parseCommand\<close> cuts its input at the space character U+0020
  outside quoted spans (no other whitespace separates tokens), leaves out the quote
  characters that delimit a span, trims the whitespace at both ends of every token and
  drops a token that is empty after trimming: it computes \<open>tokenize_spec\<close>. A quote that
  is never closed runs to the end of the input, which is parsed as if the quote were closed
  there. Empty or whitespace-only input gives no token, and
  \<open>git commit -m "fix: a b"\<close> gives the four tokens git, commit, -m and fix: a b.
\<close>

theorem parseCommand_tokenizes:
  \<open>parseCommand s = tokenize_spec s \<and>
   (inQuotes (parseLoop s) \<longrightarrow> parseCommand (s @ quoteChar (parseLoop s)) = parseCommand s) \<and>
   (list_all isWhiteSpace s \<longrightarrow> parseCommand s = []) \<and>
   parseCommand [] = [] \<and>
   parseCommand (js ''git commit -m "fix: a b"'') =
     [js ''git'', js ''commit'', js ''-m'', js ''fix: a b'']\<close>
proof (intro conjI impI)
  show "parseCommand s = tokenize_spec s" by (rule parseCommand_refines)
  show "parseCommand (s @ quoteChar (parseLoop s)) = parseCommand s" if "inQuotes (parseLoop s)"
    using that by (rule parseCommand_unterminated)
  show "parseCommand s = []" if "list_all isWhiteSpace s"
    using that by (rule parseCommand_blank)
  show "parseCommand [] = []" by (simp add: parseCommand_blank)
  show \<open>parseCommand (js ''git commit -m "fix: a b"'') =
     [js ''git'', js ''commit'', js ''-m'', js ''fix: a b'']\<close>
    by (rule parseCommand_example)
qed

text \<open>
  The theorem at two inputs: \<open>ls "a b\<close>, whose quote is never closed, and a string of a
  space and a tab.
\<close>

theorem parseCommand_tokenizes_witness:
  \<open>inQuotes (parseLoop (js ''ls "a b'')) \<and>
   quoteChar (parseLoop (js ''ls "a b'')) = [dquote] \<and>
   parseCommand (js ''ls "a b'' @ [dquote]) = [js ''ls'', js ''a b''] \<and>
   parseCommand (js ''ls "a b'') = [js ''ls'', js ''a b''] \<and>
   tokenize_spec (js ''ls "a b'') = [js ''ls'', js ''a b''] \<and>
   list_all isWhiteSpace [0x20, 0x09] \<and>
   parseCommand [0x20, 0x09] = []\<close>
proof -
  have q: \<open>inQuotes (parseLoop (js ''ls "a b''))\<close> by code_simp
  have c: \<open>quoteChar (parseLoop (js ''ls "a b'')) = [dquote]\<close> by code_simp
  have v: \<open>parseCommand (js ''ls "a b'') = [js ''ls'', js ''a b'']\<close> by code_simp
  have w: "list_all isWhiteSpace [0x20, 0x09]" by code_simp
  have u: \<open>parseCommand (js ''ls "a b'' @ quoteChar (parseLoop (js ''ls "a b''))) =
      parseCommand (js ''ls "a b'')\<close>
    using parseCommand_tokenizes [of \<open>js ''ls "a b''\<close>] q by blast
  have r: \<open>tokenize_spec (js ''ls "a b'') = parseCommand (js ''ls "a b'')\<close>
    using parseCommand_tokenizes [of \<open>js ''ls "a b''\<close>] by simp
  have b: "parseCommand [0x20, 0x09] = []"
    using parseCommand_tokenizes [of "[0x20, 0x09]"] w by blast
  from u have u': \<open>parseCommand (js ''ls "a b'' @ [dquote]) = [js ''ls'', js ''a b'']\<close>
    by (simp only: c v)
  from r have r': \<open>tokenize_spec (js ''ls "a b'') = [js ''ls'', js ''a b'']\<close>
    by (simp only: v)
  from q c u' v r' w b show ?thesis by (intro conjI)
qed

text \<open>
  Against C4 as stated, at the input \<open>a<TAB>b " c"\<close>: the tab is whitespace outside
  every quoted span and does not split \<open>a<TAB>b\<close>, and of the quoted span \<open>" c"\<close> the
  token keeps \<open>c\<close> only, not the space inside the quotes.
\<close>

theorem parseCommand_tab_counterexample:
  \<open>isWhiteSpace 0x09 \<and>
   parseCommand (js ''a'' @ [0x09] @ js ''b " c"'') = [js ''a'' @ [0x09] @ js ''b'', js ''c''] \<and>
   parseCommand (js ''a'' @ [0x09] @ js ''b " c"'') \<noteq> [js ''a'', js ''b'', js '' c'']\<close>
  by code_simp

section \<open>Properties of the single-command runner\<close>

lemma tryExecute_result_cases:
  "tryExecute ex env command opts tr = (Ret r, tr') \<Longrightarrow>
   r = cancelledResult \<or> r = dryRunResult command \<or> (\<exists>v. r = successResult v)"
  by (auto simp add: tryExecute_def spawnCommand_def confirmExecution_def Let_def
      split: if_splits prod.splits outcome.splits)

lemma executeCommand_result_cases:
  "executeCommand suggest cfg ex env command opts tr = Some (Ret r, tr') \<Longrightarrow>
   r = cancelledResult \<or> r = dryRunResult command \<or> (\<exists>v. r = successResult v) \<or>
   (\<exists>msg. r = failedResult msg)"
  by (auto simp add: executeCommand_def Let_def dest: tryExecute_result_cases
      split: if_splits prod.splits outcome.splits option.splits)

lemma kindsOf_shapes:
  "kindsOf cancelledResult = [Cancelled]"
  "kindsOf (dryRunResult c) = [PreviewedOnly]"
  "kindsOf (successResult v) = [Succeeded]"
  "kindsOf (failedResult msg) = [Failed]"
  "kindsOf (skippedResult c) = [Skipped]"
  by (simp_all add: kindsOf_def isSuccessful_def isFailed_def isCancelled_def isSkipped_def
      isDryRun_def cancelledResult_def dryRunResult_def successResult_def failedResult_def
      skippedResult_def noResult_def)

lemma theCommand_shapes:
  "theCommand cancelledResult = None"
  "theCommand (dryRunResult c) = Some c"
  "theCommand (successResult v) = None"
  "theCommand (failedResult msg) = None"
  "theCommand (skippedResult c) = Some c"
  by (simp_all add: cancelledResult_def dryRunResult_def successResult_def failedResult_def
      skippedResult_def noResult_def)

lemma reset_hard_is_dangerous: "isDangerousCommand (js ''git reset --hard HEAD~1'')"
  by code_simp

lemma status_is_not_dangerous: "\<not> isDangerousCommand (js ''git status'')"
  by code_simp

lemma parse_git_status: "parseCommand (js ''git status'') = [js ''git'', js ''status'']"
  by code_simp

lemma quiet_status_run:
  "executeCommand suggest cfg newExecutor quietWorld (js ''git status'') perCommandOptions [] =
     Some (Ret (successResult ExecaResult),
           [Spawned (Some (js ''git'')) [js ''status''] (Ret ExecaResult)])"
  by (simp add: executeCommand_def tryExecute_def spawnCommand_def status_is_not_dangerous
      parse_git_status newExecutor_def perCommandOptions_def quietWorld_def Let_def)

text \<open>
  C5. When the command matches a danger pattern and the user answers no to the
  confirmation, \<open>executeCommand\<close> returns the Cancelled result, whatever the options: the
  only things it did are the question and the notice of cancellation, so no process was
  spawned.
\<close>

theorem declined_danger_is_cancelled:
  assumes "isDangerousCommand command"
    and "confirmReply env tr command = Ret False"
  shows "executeCommand suggest cfg ex env command opts tr =
           Some (Ret cancelledResult, tr @ [Confirmed command (Ret False), Logged RunCancelled]) \<and>
         kindsOf cancelledResult = [Cancelled] \<and>
         filter isSpawned (tr @ [Confirmed command (Ret False), Logged RunCancelled]) =
           filter isSpawned tr"
  using assms
  by (simp add: executeCommand_def tryExecute_def confirmExecution_def Let_def kindsOf_shapes)

theorem declined_danger_is_cancelled_witness:
  "isDangerousCommand (js ''git reset --hard HEAD~1'') \<and>
   confirmReply quietWorld [] (js ''git reset --hard HEAD~1'') = Ret False \<and>
   executeCommand (suggestErrorSolution 1 ConfigManager newExecutor quietWorld)
     ConfigManager newExecutor quietWorld (js ''git reset --hard HEAD~1'') perCommandOptions [] =
     Some (Ret cancelledResult,
           [Confirmed (js ''git reset --hard HEAD~1'') (Ret False), Logged RunCancelled])"
proof -
  have d: "isDangerousCommand (js ''git reset --hard HEAD~1'')"
    by (rule reset_hard_is_dangerous)
  have n: "confirmReply quietWorld [] (js ''git reset --hard HEAD~1'') = Ret False"
    by (simp add: quietWorld_def)
  from declined_danger_is_cancelled [OF d n] d n show ?thesis by simp
qed

text \<open>
  C6. In the dry mode (also the default when no mode is given) the batch returns the
  PreviewedOnly result of every command, in order, and leaves the trace as it was: it
  spawned nothing and asked nothing, not even for a dangerous command.
\<close>

theorem dry_mode_previews_all:
  assumes "modeOf opts = Dry"
  shows "executeMultipleCommands suggest cfg ex env commands opts tr =
           Some (Ret (map dryRunResult commands), tr) \<and>
         length (map dryRunResult commands) = length commands \<and>
         list_all (\<lambda>r. kindsOf r = [PreviewedOnly]) (map dryRunResult commands)"
  using assms by (simp add: executeMultipleCommands_def kindsOf_shapes list_all_iff)

theorem dry_mode_previews_all_witness:
  "modeOf \<lparr>mode = Some Dry, dryRunOption = False, skipSuggestion = False\<rparr> = Dry \<and>
   executeMultipleCommands (suggestErrorSolution 1 ConfigManager newExecutor brokenWorld)
     ConfigManager newExecutor brokenWorld
     [js ''git reset --hard HEAD~1'', js ''git status'']
     \<lparr>mode = Some Dry, dryRunOption = False, skipSuggestion = False\<rparr> [] =
     Some (Ret [dryRunResult (js ''git reset --hard HEAD~1''), dryRunResult (js ''git status'')],
           [])"
proof -
  have m: "modeOf \<lparr>mode = Some Dry, dryRunOption = False, skipSuggestion = False\<rparr> = Dry"
    by (simp add: modeOf_def)
  from dry_mode_previews_all [OF m] m show ?thesis by simp
qed

text \<open>
  C8, as the code has it. A result that \<open>executeCommand\<close> returns is of exactly one kind,
  and that kind is Succeeded, Failed, Cancelled or PreviewedOnly. It carries the command
  it came from exactly when it is PreviewedOnly; a Succeeded, Failed or Cancelled result
  holds no command.
\<close>

theorem executeCommand_one_kind:
  assumes "executeCommand suggest cfg ex env command opts tr = Some (Ret r, tr')"
  shows "(\<exists>k. kindsOf r = [k] \<and> k \<noteq> Skipped) \<and>
         (theCommand r = Some command) = (kindsOf r = [PreviewedOnly]) \<and>
         (theCommand r = None) = (kindsOf r \<noteq> [PreviewedOnly])"
  using executeCommand_result_cases [OF assms]
  by (auto simp add: kindsOf_shapes theCommand_shapes)

theorem executeCommand_one_kind_witness:
  "executeCommand (suggestErrorSolution 1 ConfigManager newExecutor quietWorld) ConfigManager
     newExecutor quietWorld (js ''git status'') perCommandOptions [] =
     Some (Ret (successResult ExecaResult),
           [Spawned (Some (js ''git'')) [js ''status''] (Ret ExecaResult)]) \<and>
   kindsOf (successResult ExecaResult) = [Succeeded] \<and>
   theCommand (successResult ExecaResult) = None"
proof -
  note run = quiet_status_run [of "suggestErrorSolution 1 ConfigManager newExecutor quietWorld"
      ConfigManager]
  from executeCommand_one_kind [OF run] run show ?thesis
    by (simp add: kindsOf_shapes)
qed

text \<open>
  Against C8 as stated: \<open>git status\<close> runs and succeeds, and the result that is returned
  holds no reference to the command.
\<close>

theorem result_without_command_counterexample:
  "executeCommand (suggestErrorSolution 1 ConfigManager newExecutor quietWorld) ConfigManager
     newExecutor quietWorld (js ''git status'') perCommandOptions [] =
     Some (Ret (successResult ExecaResult),
           [Spawned (Some (js ''git'')) [js ''status''] (Ret ExecaResult)]) \<and>
   theCommand (successResult ExecaResult) \<noteq> Some (js ''git status'') \<and>
   theCommand (successResult ExecaResult) = None"
  by (simp add: quiet_status_run theCommand_shapes)

section \<open>Properties of the batch executor\<close>

lemma withEarlier_simps:
  "withEarlier acc None = None"
  "withEarlier acc (Some (Throw e, t)) = Some (Throw e, t)"
  "withEarlier acc (Some (Ret rs, t)) = Some (Ret (acc @ rs), t)"
  by (simp_all add: withEarlier_def)

lemma autoLoop_append:
  "autoLoop suggest cfg ex env cmds (acc @ acc') tr =
     withEarlier acc (autoLoop suggest cfg ex env cmds acc' tr)"
proof (induction cmds arbitrary: acc' tr)
  case Nil
  show ?case by (simp add: withEarlier_simps)
next
  case (Cons c rest)
  show ?case
  proof (cases "executeCommand suggest cfg ex env c perCommandOptions tr")
    case None
    then show ?thesis by (simp add: withEarlier_simps)
  next
    case (Some a)
    obtain out t where a: "a = (out, t)" by (cases a)
    show ?thesis
    proof (cases out)
      case (Throw e)
      then show ?thesis using Some a by (simp add: withEarlier_simps)
    next
      case (Ret r)
      then show ?thesis using Some a Cons.IH [of "acc' @ [r]"]
        by (simp add: withEarlier_simps)
    qed
  qed
qed

lemma interactiveLoop_append:
  "interactiveLoop suggest cfg ex env cmds (acc @ acc') tr =
     withEarlier acc (interactiveLoop suggest cfg ex env cmds acc' tr)"
proof (induction cmds arbitrary: acc' tr)
  case Nil
  show ?case by (simp add: withEarlier_simps)
next
  case (Cons c rest)
  let ?tr1 = "tr @ [Asked c (actionReply env tr c)]"
  show ?case
  proof (cases "actionReply env tr c")
    case (Throw e)
    then show ?thesis by (simp add: withEarlier_simps)
  next
    case (Ret a)
    show ?thesis
    proof (cases a)
      case Quit
      then show ?thesis using Ret by (simp add: withEarlier_simps)
    next
      case Skip
      then show ?thesis using Ret Cons.IH [of "acc' @ [skippedResult c]"]
        by (simp add: withEarlier_simps)
    next
      case Execute
      show ?thesis
      proof (cases "executeCommand suggest cfg ex env c perCommandOptions
                      (tr @ [Asked c (Ret Execute)])")
        case None
        then show ?thesis using Ret Execute by (simp add: withEarlier_simps)
      next
        case (Some b)
        obtain out t where b: "b = (out, t)" by (cases b)
        show ?thesis
        proof (cases out)
          case (Throw e)
          then show ?thesis using Ret Execute Some b by (simp add: withEarlier_simps)
        next
          case r: (Ret r)
          show ?thesis
          proof (cases "continueReply env t")
            case (Throw e)
            then show ?thesis
              using Ret Execute Some b r Cons.IH [of "acc' @ [r]"]
              by (simp add: withEarlier_simps Let_def)
          next
            case (Ret go)
            then show ?thesis
              using \<open>actionReply env tr c = Ret a\<close> Execute Some b r Cons.IH [of "acc' @ [r]"]
              by (simp add: withEarlier_simps Let_def)
          qed
        qed
      qed
    qed
  qed
qed


lemma withEarlier_Ret:
  "withEarlier acc x = Some (Ret rs, t) \<longleftrightarrow> (\<exists>rs'. x = Some (Ret rs', t) \<and> rs = acc @ rs')"
  by (auto simp add: withEarlier_def split: option.splits prod.splits outcome.splits)

lemma autoLoop_Cons:
  "autoLoop suggest cfg ex env (c # rest) [] tr =
     (case executeCommand suggest cfg ex env c perCommandOptions tr of
        None \<Rightarrow> None
      | Some (Throw e, t) \<Rightarrow> Some (Throw e, t)
      | Some (Ret r, t) \<Rightarrow>
          if halts r then Some (Ret [r], t)
          else withEarlier [r]
                 (autoLoop suggest cfg ex env rest [] (if rest \<noteq> [] then t @ [Delayed 500] else t)))"
  using autoLoop_append [of suggest cfg ex env rest "[r]" "[]" for r]
  by (auto simp add: halts_def isFailed_def isCancelled_def
      split: option.splits prod.splits outcome.splits)

lemma executeCommand_oneKind:
  "executeCommand suggest cfg ex env c opts tr = Some (Ret r, t) \<Longrightarrow> oneKind r"
  by (auto simp add: oneKind_def kindsOf_shapes dest!: executeCommand_result_cases)

lemma autoLoop_inv:
  "autoLoop suggest cfg ex env cmds [] tr = Some (Ret rs, tr') \<Longrightarrow>
   length rs \<le> length cmds \<and>
   list_all2 (resultFor suggest cfg ex env) (take (length rs) cmds) rs \<and>
   list_all oneKind rs \<and>
   list_all (\<lambda>r. \<not> halts r) (butlast rs) \<and>
   (length rs < length cmds \<longrightarrow> rs \<noteq> [] \<and> halts (last rs))"
proof (induction cmds arbitrary: rs tr tr')
  case Nil
  then show ?case by simp
next
  case (Cons c rest)
  note step = Cons.prems [unfolded autoLoop_Cons]
  from step obtain r t where
    run: "executeCommand suggest cfg ex env c perCommandOptions tr = Some (Ret r, t)"
    by (auto split: option.splits prod.splits outcome.splits)
  have rf: "resultFor suggest cfg ex env c r"
    using run by (auto simp add: resultFor_def)
  have one: "oneKind r" using run by (rule executeCommand_oneKind)
  show ?case
  proof (cases "halts r")
    case True
    then have "rs = [r]" using step run by simp
    then show ?thesis using rf one True by simp
  next
    case False
    then obtain rs' where
      rest: "autoLoop suggest cfg ex env rest [] (if rest \<noteq> [] then t @ [Delayed 500] else t) =
               Some (Ret rs', tr')" and rs: "rs = r # rs'"
      using step run by (auto simp add: withEarlier_Ret)
    from Cons.IH [OF rest] show ?thesis
      using rf one False rs by (cases rs') auto
  qed
qed


lemma interactiveLoop_Cons:
  "interactiveLoop suggest cfg ex env (c # rest) [] tr =
     (case actionReply env tr c of
        Throw e \<Rightarrow> Some (Throw e, tr @ [Asked c (Throw e)])
      | Ret Quit \<Rightarrow> Some (Ret [], tr @ [Asked c (Ret Quit)])
      | Ret Skip \<Rightarrow>
          withEarlier [skippedResult c]
            (interactiveLoop suggest cfg ex env rest [] (tr @ [Asked c (Ret Skip)]))
      | Ret Execute \<Rightarrow>
          (case executeCommand suggest cfg ex env c perCommandOptions
                  (tr @ [Asked c (Ret Execute)]) of
             None \<Rightarrow> None
           | Some (Throw e, t) \<Rightarrow> Some (Throw e, t)
           | Some (Ret r, t) \<Rightarrow>
               if isFailed r then
                 (case continueReply env t of
                    Throw e \<Rightarrow> Some (Throw e, t @ [AskedContinue (Throw e)])
                  | Ret go \<Rightarrow>
                      if go then
                        withEarlier [r]
                          (interactiveLoop suggest cfg ex env rest [] (t @ [AskedContinue (Ret go)]))
                      else Some (Ret [r], t @ [AskedContinue (Ret go)]))
               else withEarlier [r] (interactiveLoop suggest cfg ex env rest [] t)))"
  using interactiveLoop_append [of suggest cfg ex env rest "[r]" "[]" for r]
  by (auto simp add: isFailed_def Let_def
      split: option.splits prod.splits outcome.splits action.splits)

lemma interactiveLoop_inv:
  "interactiveLoop suggest cfg ex env cmds [] tr = Some (Ret rs, tr') \<Longrightarrow>
   length rs \<le> length cmds \<and>
   list_all2 (resultFor suggest cfg ex env) (take (length rs) cmds) rs \<and>
   list_all oneKind rs"
proof (induction cmds arbitrary: rs tr tr')
  case Nil
  then show ?case by simp
next
  case (Cons c rest)
  note step = Cons.prems [unfolded interactiveLoop_Cons]
  from step obtain a where a: "actionReply env tr c = Ret a"
    by (cases "actionReply env tr c") auto
  show ?case
  proof (cases a)
    case Quit
    then show ?thesis using step a by simp
  next
    case Skip
    then obtain rs' where
      rest: "interactiveLoop suggest cfg ex env rest [] (tr @ [Asked c (Ret Skip)]) =
               Some (Ret rs', tr')" and rs: "rs = skippedResult c # rs'"
      using step a by (auto simp add: withEarlier_Ret)
    from Cons.IH [OF rest] show ?thesis
      using rs by (simp add: resultFor_def oneKind_def kindsOf_shapes)
  next
    case Execute
    from step a Execute obtain r t where
      run: "executeCommand suggest cfg ex env c perCommandOptions
              (tr @ [Asked c (Ret Execute)]) = Some (Ret r, t)"
      by (auto split: option.splits prod.splits outcome.splits)
    have rf: "resultFor suggest cfg ex env c r"
      using run by (auto simp add: resultFor_def)
    have one: "oneKind r" using run by (rule executeCommand_oneKind)
    note step' = step [unfolded a Execute run, simplified]
    show ?thesis
    proof (cases "rs = [r]")
      case True
      then show ?thesis using rf one by simp
    next
      case False
      then obtain rs' t' where
        rest: "interactiveLoop suggest cfg ex env rest [] t' = Some (Ret rs', tr')"
        and rs: "rs = r # rs'"
        using step' by (auto simp add: withEarlier_Ret split: if_splits outcome.splits)
      from Cons.IH [OF rest] show ?thesis
        using rf one rs by simp
    qed
  qed
qed

lemma oneKind_partition:
  "list_all oneKind rs \<Longrightarrow>
   length (filter isSuccessful rs) + length (filter isFailed rs) +
   length (filter isCancelled rs) + length (filter isSkipped rs) +
   length (filter isDryRun rs) = length rs"
  by (induction rs) (auto simp add: oneKind_def kindsOf_def split: if_splits)

lemma executeMultipleCommands_inv:
  assumes "executeMultipleCommands suggest cfg ex env commands opts tr = Some (Ret rs, tr')"
  shows "length rs \<le> length commands \<and>
         list_all2 (resultFor suggest cfg ex env) (take (length rs) commands) rs \<and>
         list_all oneKind rs"
proof (cases "modeOf opts")
  case Dry
  then have "rs = map dryRunResult commands"
    using assms by (simp add: executeMultipleCommands_def)
  then show ?thesis
    by (simp add: list_all2_conv_all_nth list_all_iff resultFor_def oneKind_def kindsOf_shapes)
next
  case Auto
  then show ?thesis
    using assms autoLoop_inv [of suggest cfg ex env commands tr rs tr']
    by (simp add: executeMultipleCommands_def)
next
  case Interactive
  then show ?thesis
    using assms interactiveLoop_inv [of suggest cfg ex env commands tr rs tr']
    by (simp add: executeMultipleCommands_def)
next
  case (OtherMode m)
  then show ?thesis using assms by (simp add: executeMultipleCommands_def)
qed

lemma add_is_not_dangerous: "\<not> isDangerousCommand (js ''git add .'')"
  by code_simp

lemma parse_git_add: "parseCommand (js ''git add .'') = [js ''git'', js ''add'', js ''.'']"
  by code_simp

lemma broken_add_run:
  "executeCommand suggest ConfigManager newExecutor brokenWorld (js ''git add .'')
     perCommandOptions [] =
     Some (Throw notAFunction,
           [Spawned (Some (js ''git'')) [js ''add'', js ''.''] (Throw (js ''boom'')),
            Logged (ExecutionFailed (js ''boom''))])"
  by (simp add: executeCommand_def tryExecute_def spawnCommand_def add_is_not_dangerous
      parse_git_add newExecutor_def perCommandOptions_def brokenWorld_def ConfigManager_def
      Let_def)

lemma quiet_reset_run:
  "executeCommand suggest cfg newExecutor quietWorld (js ''git reset --hard HEAD~1'')
     perCommandOptions tr =
     Some (Ret cancelledResult,
           tr @ [Confirmed (js ''git reset --hard HEAD~1'') (Ret False), Logged RunCancelled])"
  by (simp add: executeCommand_def tryExecute_def confirmExecution_def reset_hard_is_dangerous
      quietWorld_def Let_def)

lemma quiet_status_run_from:
  "executeCommand suggest cfg newExecutor quietWorld (js ''git status'') perCommandOptions tr =
     Some (Ret (successResult ExecaResult),
           tr @ [Spawned (Some (js ''git'')) [js ''status''] (Ret ExecaResult)])"
  by (simp add: executeCommand_def tryExecute_def spawnCommand_def status_is_not_dangerous
      parse_git_status newExecutor_def perCommandOptions_def quietWorld_def Let_def)

lemma halts_shapes:
  "halts (failedResult m)" "halts cancelledResult" "\<not> halts (successResult v)"
  "\<not> halts (dryRunResult c)" "\<not> halts (skippedResult c)"
  by (simp_all add: halts_def isFailed_def isCancelled_def cancelledResult_def dryRunResult_def
      successResult_def failedResult_def skippedResult_def noResult_def)

lemma modeOf_simps:
  "modeOf autoOptions = Auto" "modeOf interactiveOptions = Interactive"
  by (simp_all add: modeOf_def autoOptions_def interactiveOptions_def)

lemma auto_Nil: "executeMultipleCommands suggest cfg ex env [] autoOptions tr = Some (Ret [], tr)"
  by (simp add: executeMultipleCommands_def modeOf_simps)

text \<open>
  The loop of the automatic mode by its first command. When \<open>executeCommand\<close> returns a
  result that halts the batch (Failed or Cancelled), the batch returns that one result
  and the world is as that command left it. Otherwise the result is followed by the
  results of the batch of the remaining commands, run from the world the first command
  left (after the pause between commands). So of the results returned only the last can
  be Failed or Cancelled, and it is whenever there are fewer results than commands.
\<close>

lemma auto_mode_stops_at_first_halt:
  "(executeCommand suggest cfg ex env A perCommandOptions tr = Some (Ret r, t) \<and> halts r \<longrightarrow>
      executeMultipleCommands suggest cfg ex env (A # rest) autoOptions tr = Some (Ret [r], t)) \<and>
   (executeCommand suggest cfg ex env A perCommandOptions tr = Some (Ret r, t) \<and> \<not> halts r \<longrightarrow>
      executeMultipleCommands suggest cfg ex env (A # rest) autoOptions tr =
        withEarlier [r]
          (executeMultipleCommands suggest cfg ex env rest autoOptions
             (if rest \<noteq> [] then t @ [Delayed 500] else t))) \<and>
   (executeMultipleCommands suggest cfg ex env commands autoOptions tr = Some (Ret results, tr') \<longrightarrow>
      length results \<le> length commands \<and>
      list_all (\<lambda>r. \<not> halts r) (butlast results) \<and>
      (length results < length commands \<longrightarrow> results \<noteq> [] \<and> halts (last results)))"
proof -
  have first: "executeMultipleCommands suggest cfg ex env (A # rest) autoOptions tr =
      Some (Ret [r], t)"
    if "executeCommand suggest cfg ex env A perCommandOptions tr = Some (Ret r, t) \<and> halts r"
    using that
    by (simp add: executeMultipleCommands_def modeOf_simps autoLoop_Cons del: autoLoop.simps)
  have next_one: "executeMultipleCommands suggest cfg ex env (A # rest) autoOptions tr =
        withEarlier [r]
          (executeMultipleCommands suggest cfg ex env rest autoOptions
             (if rest \<noteq> [] then t @ [Delayed 500] else t))"
    if "executeCommand suggest cfg ex env A perCommandOptions tr = Some (Ret r, t) \<and> \<not> halts r"
    using that
    by (simp add: executeMultipleCommands_def modeOf_simps autoLoop_Cons del: autoLoop.simps)
  have whole: "length results \<le> length commands \<and>
      list_all (\<lambda>r. \<not> halts r) (butlast results) \<and>
      (length results < length commands \<longrightarrow> results \<noteq> [] \<and> halts (last results))"
    if "executeMultipleCommands suggest cfg ex env commands autoOptions tr =
      Some (Ret results, tr')"
  proof -
    from that have "autoLoop suggest cfg ex env commands [] tr = Some (Ret results, tr')"
      by (simp add: executeMultipleCommands_def modeOf_simps)
    from autoLoop_inv [OF this] show ?thesis by simp
  qed
  from first next_one whole show ?thesis by blast
qed

lemma auto_mode_throws_with_first:
  "executeCommand suggest cfg ex env A perCommandOptions tr = Some (Throw e, t) \<Longrightarrow>
   executeMultipleCommands suggest cfg ex env (A # rest) autoOptions tr = Some (Throw e, t)"
  by (simp add: executeMultipleCommands_def modeOf_simps)

text \<open>
  C3 fails on the code where it speaks of a command that fails. In the automatic mode
  with the commands \<open>[A, B, C]\<close>, here \<open>git add .\<close>, \<open>git commit -m x\<close> and \<open>git push\<close>,
  in a world where the process of \<open>A\<close> fails: \<open>executeCommand\<close> throws the TypeError of
  the missing getter out of its \<open>catch\<close> block, the loop has no \<open>try\<close>, and the batch
  throws it on. No result list is returned, so none of length 1 with the Failed result
  of \<open>A\<close>; \<open>B\<close> and \<open>C\<close> are not attempted.
\<close>

theorem auto_batch_throws_when_first_fails:
  "executeMultipleCommands (suggestErrorSolution 1 ConfigManager newExecutor brokenWorld)
     ConfigManager newExecutor brokenWorld
     [js ''git add .'', js ''git commit -m x'', js ''git push''] autoOptions [] =
     Some (Throw notAFunction,
           [Spawned (Some (js ''git'')) [js ''add'', js ''.''] (Throw (js ''boom'')),
            Logged (ExecutionFailed (js ''boom''))]) \<and>
   executeMultipleCommands (suggestErrorSolution 1 ConfigManager newExecutor brokenWorld)
     ConfigManager newExecutor brokenWorld
     [js ''git add .'', js ''git commit -m x'', js ''git push''] autoOptions [] \<noteq>
     Some (Ret [failedResult (js ''boom'')],
           [Spawned (Some (js ''git'')) [js ''add'', js ''.''] (Throw (js ''boom'')),
            Logged (ExecutionFailed (js ''boom''))])"
  by (simp add: auto_mode_throws_with_first [OF broken_add_run])

lemma interactive_Nil:
  "executeMultipleCommands suggest cfg ex env [] interactiveOptions tr = Some (Ret [], tr)"
  by (simp add: executeMultipleCommands_def modeOf_simps)

lemma interactive_unfold:
  "executeMultipleCommands suggest cfg ex env cmds interactiveOptions tr =
     interactiveLoop suggest cfg ex env cmds [] tr"
  by (simp add: executeMultipleCommands_def modeOf_simps)

lemma kind_flags:
  "isCancelled cancelledResult" "\<not> isFailed cancelledResult"
  "\<not> isFailed (successResult v)" "isFailed (failedResult m)"
  "\<not> isFailed (dryRunResult c)" "\<not> isFailed (skippedResult c)"
  by (simp_all add: isFailed_def isCancelled_def cancelledResult_def dryRunResult_def
      successResult_def failedResult_def skippedResult_def noResult_def)

lemma quiet_replies:
  "actionReply quietWorld tr c = Ret Execute"
  "confirmReply quietWorld tr c = Ret False"
  by (simp_all add: quietWorld_def)

text \<open>
  C9. In the interactive mode, when the user chooses to execute a command and the result
  is Cancelled (or anything but Failed), the batch is that result followed by the batch
  of the remaining commands, run from the very world \<open>executeCommand\<close> left: nothing is
  asked in between and the batch does not halt. Only for a Failed result the user is
  asked whether to continue, and the batch halts on a no.
\<close>

theorem cancelled_goes_on_without_prompt:
  assumes "actionReply env tr c = Ret Execute"
    and "executeCommand suggest cfg ex env c perCommandOptions (tr @ [Asked c (Ret Execute)]) =
           Some (Ret r, t)"
  shows "(isCancelled r \<longrightarrow>
            executeMultipleCommands suggest cfg ex env (c # rest) interactiveOptions tr =
              withEarlier [r] (executeMultipleCommands suggest cfg ex env rest interactiveOptions t)) \<and>
         (\<not> isFailed r \<longrightarrow>
            executeMultipleCommands suggest cfg ex env (c # rest) interactiveOptions tr =
              withEarlier [r] (executeMultipleCommands suggest cfg ex env rest interactiveOptions t)) \<and>
         (isFailed r \<longrightarrow>
            executeMultipleCommands suggest cfg ex env (c # rest) interactiveOptions tr =
              (case continueReply env t of
                 Throw e \<Rightarrow> Some (Throw e, t @ [AskedContinue (Throw e)])
               | Ret go \<Rightarrow>
                   if go then
                     withEarlier [r]
                       (executeMultipleCommands suggest cfg ex env rest interactiveOptions
                          (t @ [AskedContinue (Ret go)]))
                   else Some (Ret [r], t @ [AskedContinue (Ret go)])))"
  using assms
  by (simp add: interactive_unfold interactiveLoop_Cons isFailed_def isCancelled_def
      del: interactiveLoop.simps split: outcome.splits)

theorem cancelled_goes_on_without_prompt_witness:
  "actionReply quietWorld [] (js ''git reset --hard HEAD~1'') = Ret Execute \<and>
   executeCommand (suggestErrorSolution 1 ConfigManager newExecutor quietWorld)
     ConfigManager newExecutor quietWorld (js ''git reset --hard HEAD~1'') perCommandOptions
     ([] @ [Asked (js ''git reset --hard HEAD~1'') (Ret Execute)]) =
     Some (Ret cancelledResult,
           [Asked (js ''git reset --hard HEAD~1'') (Ret Execute),
            Confirmed (js ''git reset --hard HEAD~1'') (Ret False), Logged RunCancelled]) \<and>
   isCancelled cancelledResult \<and>
   executeMultipleCommands (suggestErrorSolution 1 ConfigManager newExecutor quietWorld)
     ConfigManager newExecutor quietWorld
     [js ''git reset --hard HEAD~1'', js ''git status''] interactiveOptions [] =
     Some (Ret [cancelledResult, successResult ExecaResult],
           [Asked (js ''git reset --hard HEAD~1'') (Ret Execute),
            Confirmed (js ''git reset --hard HEAD~1'') (Ret False), Logged RunCancelled,
            Asked (js ''git status'') (Ret Execute),
            Spawned (Some (js ''git'')) [js ''status''] (Ret ExecaResult)])"
proof -
  let ?S = "suggestErrorSolution 1 ConfigManager newExecutor quietWorld"
  let ?reset = "js ''git reset --hard HEAD~1''"
  have a: "actionReply quietWorld [] ?reset = Ret Execute"
    by (rule quiet_replies)
  have x: "executeCommand ?S ConfigManager newExecutor quietWorld ?reset perCommandOptions
     ([] @ [Asked ?reset (Ret Execute)]) =
     Some (Ret cancelledResult,
           [Asked ?reset (Ret Execute), Confirmed ?reset (Ret False), Logged RunCancelled])"
    by (simp add: quiet_reset_run)
  have k: "isCancelled cancelledResult" by (rule kind_flags)
  have rest: "executeMultipleCommands ?S ConfigManager newExecutor quietWorld
      [js ''git status''] interactiveOptions
      [Asked ?reset (Ret Execute), Confirmed ?reset (Ret False), Logged RunCancelled] =
     Some (Ret [successResult ExecaResult],
           [Asked ?reset (Ret Execute), Confirmed ?reset (Ret False), Logged RunCancelled,
            Asked (js ''git status'') (Ret Execute),
            Spawned (Some (js ''git'')) [js ''status''] (Ret ExecaResult)])"
    by (simp add: interactive_unfold interactiveLoop_Cons quiet_replies quiet_status_run_from
        kind_flags withEarlier_simps del: interactiveLoop.simps(2))
  from cancelled_goes_on_without_prompt [OF a x, of "[js ''git status'']"] k
  have "executeMultipleCommands ?S ConfigManager newExecutor quietWorld
     [?reset, js ''git status''] interactiveOptions [] =
     withEarlier [cancelledResult]
       (executeMultipleCommands ?S ConfigManager newExecutor quietWorld
          [js ''git status''] interactiveOptions
          [Asked ?reset (Ret Execute), Confirmed ?reset (Ret False), Logged RunCancelled])"
    by blast
  then have all: "executeMultipleCommands ?S ConfigManager newExecutor quietWorld
     [?reset, js ''git status''] interactiveOptions [] =
     Some (Ret [cancelledResult, successResult ExecaResult],
           [Asked ?reset (Ret Execute), Confirmed ?reset (Ret False), Logged RunCancelled,
            Asked (js ''git status'') (Ret Execute),
            Spawned (Some (js ''git'')) [js ''status''] (Ret ExecaResult)])"
    by (simp only: rest withEarlier_simps append.simps)
  from a x k all show ?thesis by (intro conjI)
qed

lemma quit_second_replies:
  "actionReply quitSecondWorld [] c = Ret Execute"
  "actionReply quitSecondWorld (Asked c' a # tr) c = Ret Quit"
  by (simp_all add: quitSecondWorld_def)

lemma quit_second_status_run_from:
  "executeCommand suggest cfg newExecutor quitSecondWorld (js ''git status'') perCommandOptions tr =
     Some (Ret (successResult ExecaResult),
           tr @ [Spawned (Some (js ''git'')) [js ''status''] (Ret ExecaResult)])"
  by (simp add: executeCommand_def tryExecute_def spawnCommand_def status_is_not_dangerous
      parse_git_status newExecutor_def perCommandOptions_def quitSecondWorld_def quietWorld_def
      Let_def)

text \<open>
  C7. In every mode the results that a batch returns stand in order for the first
  commands of the list, one result per command: there are at most as many results as
  commands, and the results match, one to one, the prefix of the command list of their
  length, each being a result of the command at its position. In the interactive mode
  with three commands, when the first command was skipped or executed and the batch went
  on (the command did not fail, or the user chose to continue after the failure) and the
  user chooses Quit at the second command, the batch returns the result of the first
  command alone.
\<close>

theorem results_follow_commands:
  "(executeMultipleCommands suggest cfg ex env commands opts tr = Some (Ret results, tr') \<longrightarrow>
      length results \<le> length commands \<and>
      list_all2 (resultFor suggest cfg ex env) (take (length results) commands) results) \<and>
   (actionReply env tr c1 = Ret a1 \<and>
    (a1 = Skip \<and> r1 = skippedResult c1 \<and> t2 = tr @ [Asked c1 (Ret Skip)] \<or>
     a1 = Execute \<and>
       executeCommand suggest cfg ex env c1 perCommandOptions (tr @ [Asked c1 (Ret Execute)]) =
         Some (Ret r1, t1) \<and>
       (\<not> isFailed r1 \<and> t2 = t1 \<or>
        isFailed r1 \<and> continueReply env t1 = Ret True \<and> t2 = t1 @ [AskedContinue (Ret True)])) \<and>
    actionReply env t2 c2 = Ret Quit \<longrightarrow>
      executeMultipleCommands suggest cfg ex env [c1, c2, c3] interactiveOptions tr =
        Some (Ret [r1], t2 @ [Asked c2 (Ret Quit)]))"
proof -
  have general: "length results \<le> length commands \<and>
      list_all2 (resultFor suggest cfg ex env) (take (length results) commands) results"
    if "executeMultipleCommands suggest cfg ex env commands opts tr = Some (Ret results, tr')"
    using executeMultipleCommands_inv [OF that] by simp
  have quit: "interactiveLoop suggest cfg ex env (c2 # cs) [] t = Some (Ret [], t @ [Asked c2 (Ret Quit)])"
    if "actionReply env t c2 = Ret Quit" for t cs
    using that by (simp add: interactiveLoop_Cons del: interactiveLoop.simps)
  have second: "executeMultipleCommands suggest cfg ex env [c1, c2, c3] interactiveOptions tr =
        Some (Ret [r1], t2 @ [Asked c2 (Ret Quit)])"
    if h: "actionReply env tr c1 = Ret a1 \<and>
    (a1 = Skip \<and> r1 = skippedResult c1 \<and> t2 = tr @ [Asked c1 (Ret Skip)] \<or>
     a1 = Execute \<and>
       executeCommand suggest cfg ex env c1 perCommandOptions (tr @ [Asked c1 (Ret Execute)]) =
         Some (Ret r1, t1) \<and>
       (\<not> isFailed r1 \<and> t2 = t1 \<or>
        isFailed r1 \<and> continueReply env t1 = Ret True \<and> t2 = t1 @ [AskedContinue (Ret True)])) \<and>
    actionReply env t2 c2 = Ret Quit"
  proof -
    from h have q: "interactiveLoop suggest cfg ex env [c2, c3] [] t2 =
        Some (Ret [], t2 @ [Asked c2 (Ret Quit)])"
      using quit by blast
    from h consider
      (skip) "actionReply env tr c1 = Ret Skip" "r1 = skippedResult c1"
        "t2 = tr @ [Asked c1 (Ret Skip)]"
    | (ok) "actionReply env tr c1 = Ret Execute"
        "executeCommand suggest cfg ex env c1 perCommandOptions (tr @ [Asked c1 (Ret Execute)]) =
           Some (Ret r1, t1)" "\<not> isFailed r1" "t2 = t1"
    | (failed) "actionReply env tr c1 = Ret Execute"
        "executeCommand suggest cfg ex env c1 perCommandOptions (tr @ [Asked c1 (Ret Execute)]) =
           Some (Ret r1, t1)" "isFailed r1" "continueReply env t1 = Ret True"
        "t2 = t1 @ [AskedContinue (Ret True)]"
      by blast
    then show ?thesis
    proof cases
      case skip
      then show ?thesis using q
        by (simp add: interactive_unfold interactiveLoop_Cons [of _ _ _ _ c1] withEarlier_simps
            del: interactiveLoop.simps)
    next
      case ok
      then show ?thesis using q
        by (simp add: interactive_unfold interactiveLoop_Cons [of _ _ _ _ c1] withEarlier_simps
            del: interactiveLoop.simps)
    next
      case failed
      then show ?thesis using q
        by (simp add: interactive_unfold interactiveLoop_Cons [of _ _ _ _ c1] withEarlier_simps
            del: interactiveLoop.simps)
    qed
  qed
  from general second show ?thesis by blast
qed

theorem results_follow_commands_witness:
  "actionReply quitSecondWorld [] (js ''git status'') = Ret Execute \<and>
   executeCommand (suggestErrorSolution 1 ConfigManager newExecutor quitSecondWorld)
     ConfigManager newExecutor quitSecondWorld (js ''git status'') perCommandOptions
     ([] @ [Asked (js ''git status'') (Ret Execute)]) =
     Some (Ret (successResult ExecaResult),
           [Asked (js ''git status'') (Ret Execute),
            Spawned (Some (js ''git'')) [js ''status''] (Ret ExecaResult)]) \<and>
   \<not> isFailed (successResult ExecaResult) \<and>
   actionReply quitSecondWorld
     [Asked (js ''git status'') (Ret Execute),
      Spawned (Some (js ''git'')) [js ''status''] (Ret ExecaResult)] (js ''git push'') = Ret Quit \<and>
   executeMultipleCommands (suggestErrorSolution 1 ConfigManager newExecutor quitSecondWorld)
     ConfigManager newExecutor quitSecondWorld
     [js ''git status'', js ''git push'', js ''git log''] interactiveOptions [] =
     Some (Ret [successResult ExecaResult],
           [Asked (js ''git status'') (Ret Execute),
            Spawned (Some (js ''git'')) [js ''status''] (Ret ExecaResult),
            Asked (js ''git push'') (Ret Quit)]) \<and>
   length [successResult ExecaResult] \<le> length [js ''git status'', js ''git push'', js ''git log''] \<and>
   list_all2
     (resultFor (suggestErrorSolution 1 ConfigManager newExecutor quitSecondWorld)
        ConfigManager newExecutor quitSecondWorld)
     [js ''git status''] [successResult ExecaResult]"
proof -
  let ?S = "suggestErrorSolution 1 ConfigManager newExecutor quitSecondWorld"
  let ?t1 = "[Asked (js ''git status'') (Ret Execute),
              Spawned (Some (js ''git'')) [js ''status''] (Ret ExecaResult)]"
  have a: "actionReply quitSecondWorld [] (js ''git status'') = Ret Execute"
    by (rule quit_second_replies)
  have x: "executeCommand ?S ConfigManager newExecutor quitSecondWorld (js ''git status'')
      perCommandOptions ([] @ [Asked (js ''git status'') (Ret Execute)]) =
      Some (Ret (successResult ExecaResult), ?t1)"
    by (simp add: quit_second_status_run_from)
  have nf: "\<not> isFailed (successResult ExecaResult)" by (rule kind_flags)
  have q: "actionReply quitSecondWorld ?t1 (js ''git push'') = Ret Quit"
    by (rule quit_second_replies)
  note T = results_follow_commands [where suggest = ?S and cfg = ConfigManager
      and ex = newExecutor and env = quitSecondWorld and tr = "[]" and ?c1.0 = "js ''git status''"
      and ?c2.0 = "js ''git push''" and ?c3.0 = "js ''git log''" and ?a1.0 = Execute
      and ?r1.0 = "successResult ExecaResult" and ?t1.0 = ?t1 and ?t2.0 = ?t1
      and commands = "[js ''git status'', js ''git push'', js ''git log'']"
      and opts = interactiveOptions and results = "[successResult ExecaResult]"
      and tr' = "?t1 @ [Asked (js ''git push'') (Ret Quit)]"]
  from T a x nf q
  have run: "executeMultipleCommands ?S ConfigManager newExecutor quitSecondWorld
     [js ''git status'', js ''git push'', js ''git log''] interactiveOptions [] =
     Some (Ret [successResult ExecaResult], ?t1 @ [Asked (js ''git push'') (Ret Quit)])"
    by blast
  from T run
  have g: "length [successResult ExecaResult] \<le>
        length [js ''git status'', js ''git push'', js ''git log''] \<and>
      list_all2 (resultFor ?S ConfigManager newExecutor quitSecondWorld)
        (take (length [successResult ExecaResult])
           [js ''git status'', js ''git push'', js ''git log'']) [successResult ExecaResult]"
    by blast
  from a x nf q run g show ?thesis by simp
qed

lemma quiet_two_run:
  "executeMultipleCommands suggest cfg newExecutor quietWorld
     [js ''git reset --hard HEAD~1'', js ''git status''] interactiveOptions [] =
     Some (Ret [cancelledResult, successResult ExecaResult],
           [Asked (js ''git reset --hard HEAD~1'') (Ret Execute),
            Confirmed (js ''git reset --hard HEAD~1'') (Ret False), Logged RunCancelled,
            Asked (js ''git status'') (Ret Execute),
            Spawned (Some (js ''git'')) [js ''status''] (Ret ExecaResult)])"
  by (simp add: interactive_unfold interactiveLoop_Cons quiet_replies quiet_status_run_from
      quiet_reset_run kind_flags withEarlier_simps del: interactiveLoop.simps(2))

text \<open>
  C10. For the results a batch returns, in any mode: every result is counted by exactly
  one of the five filters of the summary, the five counts add up to the number of
  results, and these are the counts the summary reports unless there is no result.
\<close>

theorem summary_counts_partition:
  assumes "executeMultipleCommands suggest cfg ex env commands opts tr = Some (Ret results, tr')"
  shows "list_all oneKind results \<and>
         successful (summaryCounts results) + failed (summaryCounts results) +
         cancelledCount (summaryCounts results) + skippedCount (summaryCounts results) +
         dryRunCount (summaryCounts results) = length results \<and>
         printExecutionSummary results =
           (if results = [] then None else Some (summaryCounts results))"
proof -
  from executeMultipleCommands_inv [OF assms] have one: "list_all oneKind results" by simp
  from oneKind_partition [OF one] show ?thesis
    using one by (simp add: summaryCounts_def printExecutionSummary_def)
qed

theorem summary_counts_partition_witness:
  "executeMultipleCommands (suggestErrorSolution 1 ConfigManager newExecutor quietWorld)
     ConfigManager newExecutor quietWorld
     [js ''git reset --hard HEAD~1'', js ''git status''] interactiveOptions [] =
     Some (Ret [cancelledResult, successResult ExecaResult],
           [Asked (js ''git reset --hard HEAD~1'') (Ret Execute),
            Confirmed (js ''git reset --hard HEAD~1'') (Ret False), Logged RunCancelled,
            Asked (js ''git status'') (Ret Execute),
            Spawned (Some (js ''git'')) [js ''status''] (Ret ExecaResult)]) \<and>
   summaryCounts [cancelledResult, successResult ExecaResult] =
     \<lparr>successful = 1, failed = 0, cancelledCount = 1, skippedCount = 0, dryRunCount = 0\<rparr> \<and>
   successful (summaryCounts [cancelledResult, successResult ExecaResult]) +
   failed (summaryCounts [cancelledResult, successResult ExecaResult]) +
   cancelledCount (summaryCounts [cancelledResult, successResult ExecaResult]) +
   skippedCount (summaryCounts [cancelledResult, successResult ExecaResult]) +
   dryRunCount (summaryCounts [cancelledResult, successResult ExecaResult]) = 2 \<and>
   oneKind cancelledResult \<and> oneKind (successResult ExecaResult)"
proof -
  note run = quiet_two_run [of "suggestErrorSolution 1 ConfigManager newExecutor quietWorld"
      ConfigManager]
  have counts: "summaryCounts [cancelledResult, successResult ExecaResult] =
     \<lparr>successful = 1, failed = 0, cancelledCount = 1, skippedCount = 0, dryRunCount = 0\<rparr>"
    by (simp add: summaryCounts_def isSuccessful_def isFailed_def isCancelled_def isSkipped_def
        isDryRun_def cancelledResult_def successResult_def noResult_def)
  from summary_counts_partition [OF run] run counts show ?thesis by simp
qed

section \<open>Properties of the recovery dialogue\<close>

text \<open>
  More fuel changes nothing once a run returns: what a function returns with some fuel
  it returns with any larger fuel.
\<close>

lemma executeCommand_mono:
  assumes le: "\<And>c m t x. S c m t = Some x \<Longrightarrow> S' c m t = Some x"
    and run: "executeCommand S cfg ex env c opts tr = Some x"
  shows "executeCommand S' cfg ex env c opts tr = Some x"
proof (cases "tryExecute ex env c opts tr")
  case (Pair out tr1)
  show ?thesis
  proof (cases out)
    case (Ret r)
    with run show ?thesis by (auto simp add: executeCommand_def Pair)
  next
    case (Throw msg)
    show ?thesis
    proof (cases "getAutoSuggestSolutions cfg")
      case None
      then show ?thesis using run Pair Throw by (auto simp add: executeCommand_def Let_def)
    next
      case (Some enabled)
      show ?thesis
      proof (cases "enabled \<and> \<not> skipSuggestion opts")
        case False
        then show ?thesis
          using run Pair Throw Some by (auto simp add: executeCommand_def Let_def)
      next
        case True
        then obtain y where y: "S c msg (tr1 @ [Logged (ExecutionFailed msg)]) = Some y"
          using run Pair Throw Some
          by (auto simp add: executeCommand_def Let_def split: option.splits)
        from le [OF y] y show ?thesis
          using run Pair Throw Some True by (simp add: executeCommand_def Let_def)
      qed
    qed
  qed
qed

lemma autoLoop_mono:
  assumes le: "\<And>c m t x. S c m t = Some x \<Longrightarrow> S' c m t = Some x"
  shows "autoLoop S cfg ex env cmds acc tr = Some x \<Longrightarrow>
         autoLoop S' cfg ex env cmds acc tr = Some x"
proof (induction cmds arbitrary: acc tr)
  case Nil
  then show ?case by simp
next
  case (Cons c rest)
  from Cons.prems obtain y where
    y: "executeCommand S cfg ex env c perCommandOptions tr = Some y"
    by (auto split: option.splits)
  have y': "executeCommand S' cfg ex env c perCommandOptions tr = Some y"
    using le y by (rule executeCommand_mono)
  show ?case using Cons.prems y y' Cons.IH
    by (auto split: prod.splits outcome.splits if_splits)
qed

lemma interactiveLoop_mono:
  assumes le: "\<And>c m t x. S c m t = Some x \<Longrightarrow> S' c m t = Some x"
  shows "interactiveLoop S cfg ex env cmds acc tr = Some x \<Longrightarrow>
         interactiveLoop S' cfg ex env cmds acc tr = Some x"
proof (induction cmds arbitrary: acc tr)
  case Nil
  then show ?case by simp
next
  case (Cons c rest)
  show ?case
  proof (cases "actionReply env tr c = Ret Execute")
    case False
    then show ?thesis using Cons.prems Cons.IH
      by (auto simp add: Let_def split: outcome.splits action.splits)
  next
    case True
    from Cons.prems True obtain y where
      y: "executeCommand S cfg ex env c perCommandOptions (tr @ [Asked c (Ret Execute)]) = Some y"
      by (auto simp add: Let_def split: option.splits)
    have y': "executeCommand S' cfg ex env c perCommandOptions (tr @ [Asked c (Ret Execute)]) =
        Some y"
      using le y by (rule executeCommand_mono)
    show ?thesis using Cons.prems True y y' Cons.IH
      by (auto simp add: Let_def split: prod.splits outcome.splits if_splits)
  qed
qed

lemma executeMultipleCommands_mono:
  assumes le: "\<And>c m t x. S c m t = Some x \<Longrightarrow> S' c m t = Some x"
    and run: "executeMultipleCommands S cfg ex env cmds opts tr = Some x"
  shows "executeMultipleCommands S' cfg ex env cmds opts tr = Some x"
  using run autoLoop_mono [of S S', OF le] interactiveLoop_mono [of S S', OF le]
  by (auto simp add: executeMultipleCommands_def split: mode.splits)

lemma catching_mono:
  "(\<And>x. r = Some x \<Longrightarrow> r' = Some x) \<Longrightarrow> catching line r = Some y \<Longrightarrow>
   catching line r' = Some y"
  by (cases r) (auto simp add: catching_def)

lemma executeSpecificSolution_mono:
  assumes le: "\<And>c m t x. S c m t = Some x \<Longrightarrow> S' c m t = Some x"
    and run: "executeSpecificSolution S cfg ex env solution tr = Some x"
  shows "executeSpecificSolution S' cfg ex env solution tr = Some x"
proof (cases "gitScan True 0 solution \<noteq> [] \<and> (\<exists>m. modeReply env tr = Ret m \<and> m \<noteq> cancelMode)")
  case False
  then show ?thesis using run
    by (auto simp add: executeSpecificSolution_def Let_def split: outcome.splits)
next
  case True
  then obtain m where m: "modeReply env tr = Ret m" "m \<noteq> cancelMode" by auto
  let ?batch = "\<lambda>S. executeMultipleCommands S cfg ex env (map cleanMatch (gitScan True 0 solution))
      \<lparr>mode = Some m, dryRunOption = False, skipSuggestion = True\<rparr>
      (tr @ [ChoseMode (Ret m)])"
  from run True m obtain y where y: "?batch S = Some y"
    by (auto simp add: executeSpecificSolution_def Let_def split: option.splits)
  have y': "?batch S' = Some y" using le y by (rule executeMultipleCommands_mono)
  show ?thesis using run True m y y'
    by (simp add: executeSpecificSolution_def Let_def)
qed

lemma getSpecificSolution_mono:
  assumes le: "\<And>c m t x. S c m t = Some x \<Longrightarrow> S' c m t = Some x"
    and run: "getSpecificSolution S cfg ex env c m s tr = Some x"
  shows "getSpecificSolution S' cfg ex env c m s tr = Some x"
  using run executeSpecificSolution_mono [of S S', OF le]
  unfolding getSpecificSolution_def Let_def
  by (elim catching_mono [rotated]) (auto split: outcome.splits)

lemma getUserSolutionChoice_mono:
  assumes le: "\<And>c m t x. S c m t = Some x \<Longrightarrow> S' c m t = Some x"
    and run: "getUserSolutionChoice S cfg ex env c m s tr = Some x"
  shows "getUserSolutionChoice S' cfg ex env c m s tr = Some x"
  using run getSpecificSolution_mono [of S S', OF le]
  unfolding getUserSolutionChoice_def Let_def
  by (elim catching_mono [rotated]) (auto split: outcome.splits if_splits)

lemma suggestBody_mono:
  assumes le: "\<And>c m t x. S c m t = Some x \<Longrightarrow> S' c m t = Some x"
    and run: "suggestBody S cfg ex env c m tr = Some x"
  shows "suggestBody S' cfg ex env c m tr = Some x"
  using run getUserSolutionChoice_mono [of S S', OF le]
  unfolding suggestBody_def Let_def
  by (elim catching_mono [rotated]) (auto split: outcome.splits)

lemma suggestErrorSolution_Suc:
  "suggestErrorSolution fuel cfg ex env c m tr = Some x \<Longrightarrow>
   suggestErrorSolution (Suc fuel) cfg ex env c m tr = Some x"
proof (induction fuel arbitrary: c m tr x)
  case 0
  then show ?case by simp
next
  case (Suc fuel)
  have le: "\<And>c m t x. suggestErrorSolution fuel cfg ex env c m t = Some x \<Longrightarrow>
      suggestErrorSolution (Suc fuel) cfg ex env c m t = Some x"
    by (rule Suc.IH)
  from Suc.prems have "suggestBody (suggestErrorSolution fuel cfg ex env) cfg ex env c m tr = Some x"
    by simp
  from suggestBody_mono [of "suggestErrorSolution fuel cfg ex env"
      "suggestErrorSolution (Suc fuel) cfg ex env", OF le this]
  show ?case by simp
qed

lemma suggestErrorSolution_more_fuel:
  "fuel \<le> fuel' \<Longrightarrow> suggestErrorSolution fuel cfg ex env c m tr = Some x \<Longrightarrow>
   suggestErrorSolution fuel' cfg ex env c m tr = Some x"
  by (induction fuel' rule: dec_induct)
    (simp_all add: suggestErrorSolution_Suc del: suggestErrorSolution.simps)

lemma run_executeCommand_more_fuel:
  assumes "fuel \<le> fuel'"
    and "run_executeCommand fuel cfg ex env c opts tr = Some x"
  shows "run_executeCommand fuel' cfg ex env c opts tr = Some x"
  using assms(2) unfolding run_executeCommand_def
  by (rule executeCommand_mono [rotated]) (rule suggestErrorSolution_more_fuel [OF assms(1)])

lemma run_executeMultipleCommands_more_fuel:
  assumes "fuel \<le> fuel'"
    and "run_executeMultipleCommands fuel cfg ex env cmds opts tr = Some x"
  shows "run_executeMultipleCommands fuel' cfg ex env cmds opts tr = Some x"
  using assms(2) unfolding run_executeMultipleCommands_def
  by (rule executeMultipleCommands_mono [rotated]) (rule suggestErrorSolution_more_fuel [OF assms(1)])

lemma catching_never_throws: "catching line r \<noteq> Some (Throw e, t)"
  by (simp add: catching_def split: option.splits prod.splits outcome.splits)

lemma suggestErrorSolution_never_throws:
  "suggestErrorSolution fuel cfg ex env c m tr \<noteq> Some (Throw e, t)"
  by (cases fuel) (simp_all add: suggestBody_def catching_never_throws)

lemma suggestBody_generator_fails:
  "generateCommand env tr (OptionsPrompt c m) = Throw e \<Longrightarrow>
   suggestBody suggest cfg ex env c m tr =
     Some (Ret (), tr @ [Generated (OptionsPrompt c m) (Throw e), Logged SuggestionFailed])"
  by (simp add: suggestBody_def catching_def Let_def)

text \<open>
  C2 fails on the code. Let the command reach \<open>execa\<close> (no dry run; if it is dangerous,
  the user confirmed) and let \<open>execa\<close> throw with the message \<open>msg\<close>, as it does when the
  process cannot be spawned or exits non-zero. The \<open>catch\<close> block logs the failure and
  calls \<open>config.getAutoSuggestSolutions()\<close>, which the configuration object of the
  repository does not have: \<open>executeCommand\<close> throws that TypeError to its caller and
  returns no result, so not the Failed result that carries \<open>msg\<close>.
\<close>

theorem failed_command_throws_TypeError:
  assumes "\<not> thisDryRun ex" and "\<not> dryRunOption opts"
    and "isDangerousCommand command \<longrightarrow> confirmReply env tr command = Ret True"
    and "tr0 = (if isDangerousCommand command then tr @ [Confirmed command (Ret True)] else tr)"
    and "cmd = (case parseCommand command of [] \<Rightarrow> None | c # cs \<Rightarrow> Some c)"
    and "execa env tr0 cmd (drop 1 (parseCommand command)) = Throw msg"
  shows "executeCommand suggest ConfigManager ex env command opts tr =
           Some (Throw notAFunction,
                 tr0 @ [Spawned cmd (drop 1 (parseCommand command)) (Throw msg),
                        Logged (ExecutionFailed msg)]) \<and>
         (\<forall>t. executeCommand suggest ConfigManager ex env command opts tr \<noteq>
                Some (Ret (failedResult msg), t))"
proof -
  have thrown: "tryExecute ex env command opts tr =
      (Throw msg, tr0 @ [Spawned cmd (drop 1 (parseCommand command)) (Throw msg)])"
    using assms
    by (cases "isDangerousCommand command")
      (simp_all add: tryExecute_def spawnCommand_def confirmExecution_def Let_def)
  then show ?thesis
    by (simp add: executeCommand_def ConfigManager_def Let_def)
qed

lemma push_is_not_dangerous: "\<not> isDangerousCommand (js ''git push'')"
  by code_simp

lemma parse_git_push: "parseCommand (js ''git push'') = [js ''git'', js ''push'']"
  by code_simp

lemma broken_execa: "execa brokenWorld tr cmd cmdArgs = Throw (js ''boom'')"
  by (simp add: brokenWorld_def)

theorem failed_command_throws_TypeError_witness:
  "\<not> thisDryRun newExecutor \<and> \<not> dryRunOption perCommandOptions \<and>
   \<not> isDangerousCommand (js ''git push'') \<and>
   parseCommand (js ''git push'') = [js ''git'', js ''push''] \<and>
   execa brokenWorld [] (Some (js ''git'')) [js ''push''] = Throw (js ''boom'') \<and>
   executeCommand (suggestErrorSolution 1 ConfigManager newExecutor brokenWorld) ConfigManager
     newExecutor brokenWorld (js ''git push'') perCommandOptions [] =
     Some (Throw notAFunction,
       [Spawned (Some (js ''git'')) [js ''push''] (Throw (js ''boom'')),
        Logged (ExecutionFailed (js ''boom''))])"
proof -
  have h1: "\<not> thisDryRun newExecutor" by (simp add: newExecutor_def)
  have h2: "\<not> dryRunOption perCommandOptions" by (simp add: perCommandOptions_def)
  have h3: "isDangerousCommand (js ''git push'') \<longrightarrow>
      confirmReply brokenWorld [] (js ''git push'') = Ret True"
    by (simp add: push_is_not_dangerous)
  have h4: "[] = (if isDangerousCommand (js ''git push'')
      then [] @ [Confirmed (js ''git push'') (Ret True)] else [])"
    by (simp add: push_is_not_dangerous)
  have h5: "Some (js ''git'') =
      (case parseCommand (js ''git push'') of [] \<Rightarrow> None | c # cs \<Rightarrow> Some c)"
    by (simp add: parse_git_push)
  have h6: "execa brokenWorld [] (Some (js ''git'')) (drop 1 (parseCommand (js ''git push''))) =
      Throw (js ''boom'')"
    by (rule broken_execa)
  note T = failed_command_throws_TypeError [OF h1 h2 h3 h4 h5 h6,
      of "suggestErrorSolution 1 ConfigManager newExecutor brokenWorld"]
  from T have run: "executeCommand (suggestErrorSolution 1 ConfigManager newExecutor brokenWorld)
      ConfigManager newExecutor brokenWorld (js ''git push'') perCommandOptions [] =
      Some (Throw notAFunction,
        [Spawned (Some (js ''git'')) [js ''push''] (Throw (js ''boom'')),
         Logged (ExecutionFailed (js ''boom''))])"
    by (simp add: parse_git_push)
  from h1 h2 push_is_not_dangerous parse_git_push broken_execa run show ?thesis by simp
qed

text \<open>
  The batch executor does not read \<open>skipSuggestion\<close>: it hands every command the options
  \<open>{ dryRun: false }\<close>, whatever it was given.
\<close>

lemma executeMultipleCommands_ignores_skipSuggestion:
  "executeMultipleCommands suggest cfg ex env commands (opts\<lparr>skipSuggestion := b\<rparr>) tr =
   executeMultipleCommands suggest cfg ex env commands opts tr"
  by (simp add: executeMultipleCommands_def modeOf_def)

lemma parse_retry_option:
  "parseSolutionOptions (js ''1. Retry: push once more'') =
     [\<lparr>title = js ''Retry'', description = js ''push once more'',
       fullText = js ''Retry: push once more''\<rparr>]"
  by code_simp

lemma scan_git_push: "map cleanMatch (gitScan True 0 (js ''git push'')) = [js ''git push'']"
  by code_simp

lemma scan_git_push_not_Nil: "gitScan True 0 (js ''git push'') \<noteq> []"
  by code_simp

lemma auto_is_not_cancel: "Auto \<noteq> cancelMode"
  by (simp add: cancelMode_def)

lemma broken_replies:
  "execa brokenWorld tr cmd cmdArgs = Throw (js ''boom'')"
  "generateCommand brokenWorld tr (OptionsPrompt c m) = Ret (js ''1. Retry: push once more'')"
  "generateCommand brokenWorld tr (CommandsPrompt c m s) = Ret (js ''git push'')"
  "selectReply brokenWorld tr n = (if list_ex isSelected tr then Ret (- 1) else Ret 0)"
  "modeReply brokenWorld tr = Ret Auto"
  by (simp_all add: brokenWorld_def)

lemma broken_push_run:
  "executeCommand suggest (configWith True) newExecutor brokenWorld (js ''git push'')
     perCommandOptions tr =
   (case suggest (js ''git push'') (js ''boom'')
           (tr @ [Spawned (Some (js ''git'')) [js ''push''] (Throw (js ''boom'')),
                  Logged (ExecutionFailed (js ''boom''))]) of
      None \<Rightarrow> None
    | Some (Throw e, t) \<Rightarrow> Some (Throw e, t)
    | Some (Ret u, t) \<Rightarrow> Some (Ret (failedResult (js ''boom'')), t))"
  by (simp add: executeCommand_def tryExecute_def spawnCommand_def push_is_not_dangerous
      parse_git_push broken_replies newExecutor_def perCommandOptions_def configWith_def Let_def)

text \<open>
  C1 fails on the code where it says that the flag is carried. At the solution text
  \<open>git push\<close>, in a world where the user picks the automatic mode: the replacement batch
  of \<open>executeSpecificSolution\<close>, started with \<open>skipSuggestion: true\<close>, is one call of
  \<open>executeCommand\<close> with the options \<open>{ dryRun: false }\<close>, in which \<open>skipSuggestion\<close> is
  not set, whatever the configuration and the recovery function. With the configuration
  object of the repository and a failing process the call throws the TypeError of the
  missing getter, and \<open>executeSpecificSolution\<close> throws it on.
\<close>

theorem inner_batch_drops_skipSuggestion:
  "executeSpecificSolution suggest cfg newExecutor brokenWorld (js ''git push'') tr =
     (case executeCommand suggest cfg newExecutor brokenWorld (js ''git push'')
             \<lparr>mode = None, dryRunOption = False, skipSuggestion = False\<rparr>
             (tr @ [ChoseMode (Ret Auto)]) of
        None \<Rightarrow> None
      | Some (Throw e, t) \<Rightarrow> Some (Throw e, t)
      | Some (Ret r, t) \<Rightarrow> Some (Ret (), t)) \<and>
   executeSpecificSolution suggest ConfigManager newExecutor brokenWorld (js ''git push'') [] =
     Some (Throw notAFunction,
       [ChoseMode (Ret Auto),
        Spawned (Some (js ''git'')) [js ''push''] (Throw (js ''boom'')),
        Logged (ExecutionFailed (js ''boom''))])"
proof -
  have batch: "executeSpecificSolution suggest c newExecutor brokenWorld (js ''git push'') t0 =
     (case executeCommand suggest c newExecutor brokenWorld (js ''git push'')
             \<lparr>mode = None, dryRunOption = False, skipSuggestion = False\<rparr>
             (t0 @ [ChoseMode (Ret Auto)]) of
        None \<Rightarrow> None
      | Some (Throw e, t) \<Rightarrow> Some (Throw e, t)
      | Some (Ret r, t) \<Rightarrow> Some (Ret (), t))" for c t0
    by (simp add: executeSpecificSolution_def executeMultipleCommands_def modeOf_def
        scan_git_push scan_git_push_not_Nil auto_is_not_cancel broken_replies
        perCommandOptions_def Let_def
        split: option.splits prod.splits outcome.splits)
  have run: "executeCommand suggest ConfigManager newExecutor brokenWorld (js ''git push'')
      \<lparr>mode = None, dryRunOption = False, skipSuggestion = False\<rparr> [ChoseMode (Ret Auto)] =
      Some (Throw notAFunction,
        [ChoseMode (Ret Auto),
         Spawned (Some (js ''git'')) [js ''push''] (Throw (js ''boom'')),
         Logged (ExecutionFailed (js ''boom''))])"
    by (simp add: executeCommand_def tryExecute_def spawnCommand_def push_is_not_dangerous
        parse_git_push broken_replies newExecutor_def ConfigManager_def Let_def)
  from batch [of cfg tr] batch [of ConfigManager "[]"] run show ?thesis by simp
qed

text \<open>
  What the dropped flag would do with a configuration object that had the getter and
  auto-suggestion on, in a world where every process fails: \<open>git push\<close> fails and starts
  a recovery dialogue; the user picks the proposed option and the automatic mode; the
  replacement command \<open>git push\<close> of the inner batch fails too, and a second recovery
  dialogue is entered from within the first.
\<close>

lemma reenters_recovery_with_getter:
  "run_executeCommand 2 (configWith True) newExecutor brokenWorld (js ''git push'')
     perCommandOptions [] =
   Some (Ret (failedResult (js ''boom'')),
     [Spawned (Some (js ''git'')) [js ''push''] (Throw (js ''boom'')),
      Logged (ExecutionFailed (js ''boom'')),
      Generated (OptionsPrompt (js ''git push'') (js ''boom''))
        (Ret (js ''1. Retry: push once more'')),
      Selected 1 (Ret 0),
      Generated (CommandsPrompt (js ''git push'') (js ''boom'') (js ''Retry: push once more''))
        (Ret (js ''git push'')),
      ChoseMode (Ret Auto),
      Spawned (Some (js ''git'')) [js ''push''] (Throw (js ''boom'')),
      Logged (ExecutionFailed (js ''boom'')),
      Generated (OptionsPrompt (js ''git push'') (js ''boom''))
        (Ret (js ''1. Retry: push once more'')),
      Selected 1 (Ret (- 1)),
      Logged RecoveryCancelled])"
  by (simp add: run_executeCommand_def numeral_2_eq_2 suggestBody_def getUserSolutionChoice_def
      getSpecificSolution_def executeSpecificSolution_def executeMultipleCommands_def modeOf_def
      catching_def broken_replies parse_retry_option scan_git_push scan_git_push_not_Nil
      auto_is_not_cancel broken_push_run Let_def)

lemma stubborn_replies:
  "execa stubbornWorld tr cmd cmdArgs = Throw (js ''boom'')"
  "generateCommand stubbornWorld tr (OptionsPrompt c m) = Ret (js ''1. Retry: push once more'')"
  "generateCommand stubbornWorld tr (CommandsPrompt c m s) = Ret (js ''git push'')"
  "selectReply stubbornWorld tr n = Ret 0"
  "modeReply stubbornWorld tr = Ret Auto"
  by (simp_all add: stubbornWorld_def brokenWorld_def)

lemma stubborn_push_run:
  "executeCommand suggest (configWith True) newExecutor stubbornWorld (js ''git push'')
     perCommandOptions tr =
   (case suggest (js ''git push'') (js ''boom'')
           (tr @ [Spawned (Some (js ''git'')) [js ''push''] (Throw (js ''boom'')),
                  Logged (ExecutionFailed (js ''boom''))]) of
      None \<Rightarrow> None
    | Some (Throw e, t) \<Rightarrow> Some (Throw e, t)
    | Some (Ret u, t) \<Rightarrow> Some (Ret (failedResult (js ''boom'')), t))"
  by (simp add: executeCommand_def tryExecute_def spawnCommand_def push_is_not_dangerous
      parse_git_push stubborn_replies newExecutor_def perCommandOptions_def configWith_def Let_def)

text \<open>
  With such a configuration object, in the world where every process fails and the user
  picks the first option in every dialogue, the dialogues nest without end: the run does
  not return, whatever the fuel.
\<close>

lemma stubborn_never_returns:
  "suggestErrorSolution fuel (configWith True) newExecutor stubbornWorld (js ''git push'')
     (js ''boom'') tr = None"
proof (induction fuel arbitrary: tr)
  case 0
  show ?case by simp
next
  case (Suc fuel)
  show ?case
    by (simp add: suggestBody_def getUserSolutionChoice_def getSpecificSolution_def
        executeSpecificSolution_def executeMultipleCommands_def modeOf_def catching_def
        stubborn_replies parse_retry_option scan_git_push scan_git_push_not_Nil
        auto_is_not_cancel stubborn_push_run Suc.IH Let_def)
qed

lemma stubborn_run_never_returns:
  "run_executeCommand fuel (configWith True) newExecutor stubbornWorld (js ''git push'')
     perCommandOptions [] = None"
  by (simp add: run_executeCommand_def stubborn_push_run stubborn_never_returns)

end
